theory Spec2Isabelle
  imports Main "HOL-Library.Word"
begin

unbundle bit_operations_syntax

section \<open>Data model\<close>

type_synonym word_t = "32 word"
type_synonym halfword_t = "16 word"

text \<open>
  Modelled from the spec: the \<^verbatim>\<open>Err::Error\<close> enumeration of \<^verbatim>\<open>libs/error\<close> is not part
  of the sources at hand. The tools name \<^verbatim>\<open>Err::success\<close> and \<^verbatim>\<open>Err::failure\<close>; the
  transient failure on which the retry helper re-invokes its operation is \<open>try_again\<close>.
\<close>

datatype Error = success | failure | try_again

text \<open>
  Modelled from the spec: the core register names of \<^verbatim>\<open>arm.h\<close> (REGSEL 0..15 are R0..R15,
  R15 being the PC, followed by xPSR, MSP and PSP).
\<close>

datatype Register =
    R0 | R1 | R2 | R3 | R4 | R5 | R6 | R7 | R8 | R9 | R10 | R11 | R12
  | SP | LR | PC | xPSR | MSP | PSP

text \<open>
  Everything the tools do to the outside world, in program order: the method calls on the
  SWD driver, the debug access port and the target (classes that live outside the three
  source files), and the host-side effects (console output, log lines, sleeping).
\<close>

datatype event =
    swd_initialize
  | swd_enter_reset
  | swd_leave_reset
  | swd_reset_target nat
  | dap_reset_state
  | target_initialize
  | target_reset_halt_state
  | target_halt
  | target_resume
  | read_word word_t
  | write_word word_t word_t
  | read_halfword word_t
  | write_halfword word_t halfword_t
  | read_byte word_t
  | write_byte word_t "8 word"
  | read_register Register
  | write_register Register word_t
  | usleep nat
  | putchar "8 word"
  | fflush_stdout
  | warning_unsupported_operation word_t
  | warning_unexpected_breakpoint halfword_t word_t
  | warning_unexpected_halt word_t
  | notice_first_words word_t
  | notice_word word_t word_t
  | set_level
  | error_stack_print

text \<open>
  The debug link (driver, access port and target together) is a parameter: given a method
  call and its own state it answers with an error code, the word it stored through the
  out-pointer (read only on success), and its next state.
\<close>

type_synonym 't link = "event \<Rightarrow> 't \<Rightarrow> Error \<times> word_t \<times> 't"

record 't world =
  link_state :: 't
  trace :: "event list"

definition call :: "'t link \<Rightarrow> event \<Rightarrow> 't world \<Rightarrow> Error \<times> word_t \<times> 't world" where
  "call target c w =
     (case target c (link_state w) of
        (e, v, t') \<Rightarrow> (e, v, \<lparr>link_state = t', trace = trace w @ [c]\<rparr>))"

definition emit :: "event \<Rightarrow> 't world \<Rightarrow> 't world" where
  "emit ev w = w\<lparr>trace := trace w @ [ev]\<rparr>"

text \<open>The events that were added to the trace on the way from world \<open>w\<close> to world \<open>w'\<close>.\<close>

definition events_since :: "'t world \<Rightarrow> 't world \<Rightarrow> event list" where
  "events_since w w' = drop (length (trace w)) (trace w')"

text \<open>The calls that access target memory, whatever their width.\<close>

fun memory_access :: "event \<Rightarrow> bool" where
  "memory_access (read_word a) = True"
| "memory_access (write_word a v) = True"
| "memory_access (read_halfword a) = True"
| "memory_access (write_halfword a h) = True"
| "memory_access (read_byte a) = True"
| "memory_access (write_byte a b) = True"
| "memory_access _ = False"

text \<open>
  Modelled from the spec: the checking macros of \<^verbatim>\<open>libs/error\<close>, which are not part of
  the sources at hand. \<^verbatim>\<open>Check(expression)\<close> returns the error of the expression from the
  enclosing function unless it is success, and \<^verbatim>\<open>CheckCleanup(expression, label)\<close> jumps to
  the label instead; both are written out as a test of the error code at each use.
  \<^verbatim>\<open>CheckRetry(expression, retries)\<close> is the bounded-retry helper: it re-invokes the
  expression on transient failure, makes \<open>retries\<close> attempts at most, and then treats the last
  error as \<^verbatim>\<open>Check\<close> does (this last test, too, is written out at each use).
\<close>

fun CheckRetry ::
  "('s \<Rightarrow> Error \<times> 'a \<times> 's) \<Rightarrow> nat \<Rightarrow> 's \<Rightarrow> Error \<times> 'a \<times> 's" where
  "CheckRetry expression retries s =
     (case expression s of
        (e, v, s') \<Rightarrow>
          if e = try_again \<and> 1 < retries then CheckRetry expression (retries - 1) s'
          else (e, v, s'))"

declare CheckRetry.simps [simp del]

text \<open>
  The reading of a bounded retry that the specification gives, for the call \<open>c\<close> with the
  bound \<open>n\<close> started in the world \<open>w\<close>: the call is attempted \<open>k\<close> times, \<open>k\<close> between 1 and
  \<open>n\<close>; every attempt but the last asked to be tried again; \<open>r\<close> is what the last attempt
  returned; and the last attempt asked to be tried again only if it was attempt number \<open>n\<close>.
  \<open>after_attempts target c j w\<close> is the world after \<open>j\<close> attempts.
\<close>

fun after_attempts :: "'t link \<Rightarrow> event \<Rightarrow> nat \<Rightarrow> 't world \<Rightarrow> 't world" where
  "after_attempts target c 0 w = w"
| "after_attempts target c (Suc j) w = after_attempts target c j (snd (snd (call target c w)))"

definition retried ::
  "'t link \<Rightarrow> event \<Rightarrow> nat \<Rightarrow> 't world \<Rightarrow> nat \<Rightarrow> Error \<times> word_t \<times> 't world \<Rightarrow> bool" where
  "retried target c n w k r \<longleftrightarrow>
     1 \<le> k \<and> k \<le> n \<and>
     list_all (\<lambda>j. fst (call target c (after_attempts target c j w)) = try_again) [0..<k - 1] \<and>
     r = call target c (after_attempts target c (k - 1) w) \<and>
     (fst r = try_again \<longrightarrow> k = n)"

text \<open>
  Modelled from the spec: the debug register addresses and bit masks of
  \<^verbatim>\<open>armv6m_v7m.h\<close> (DFSR at 0xE000ED30 with reason bits [4:0] and BKPT at bit 1; DHCSR at
  0xE000EDF0 with S_HALT at bit 17).
\<close>

definition DFSR :: word_t where "DFSR = 0xE000ED30"
definition DFSR_reason_mask :: word_t where "DFSR_reason_mask = 0x1F"
definition DFSR_BKPT :: word_t where "DFSR_BKPT = 0x2"
definition DHCSR :: word_t where "DHCSR = 0xE000EDF0"
definition DHCSR_S_HALT :: word_t where "DHCSR_S_HALT = 0x20000"

section \<open>The semihosting host (swdhost.cpp)\<close>

definition write_char :: "'t link \<Rightarrow> word_t \<Rightarrow> 't world \<Rightarrow> Error \<times> 't world" where
  "write_char target parameter w =
     (success, emit fflush_stdout (emit (putchar (ucast parameter)) w))"

definition instr_halfword :: "word_t \<Rightarrow> word_t \<Rightarrow> halfword_t" where
  "instr_halfword pc instr_word =
     (if pc AND 2 \<noteq> 0 then ucast (drop_bit 16 instr_word)
      else ucast (instr_word AND 0xFFFF))"

definition handle_halt :: "'t link \<Rightarrow> 't world \<Rightarrow> Error \<times> 't world" where
  "handle_halt target w =
     (case CheckRetry (call target (read_word DFSR)) 100 w of (e1, dfsr, w1) \<Rightarrow>
      if e1 \<noteq> success then (e1, w1)
      else if dfsr AND DFSR_reason_mask = DFSR_BKPT then
        (case CheckRetry (call target (read_register PC)) 100 w1 of (e2, pc, w2) \<Rightarrow>
         if e2 \<noteq> success then (e2, w2)
         else
           (case CheckRetry (call target (read_word (pc AND NOT 3))) 100 w2 of
              (e3, instr_word, w3) \<Rightarrow>
            if e3 \<noteq> success then (e3, w3)
            else if instr_halfword pc instr_word = 0xBEAB then
              (case CheckRetry (call target (read_register R0)) 100 w3 of
                 (e4, operation, w4) \<Rightarrow>
               if e4 \<noteq> success then (e4, w4)
               else
                 (case CheckRetry (call target (read_register R1)) 100 w4 of
                    (e5, parameter, w5) \<Rightarrow>
                  if e5 \<noteq> success then (e5, w5)
                  else if operation = 0x3 then
                    (case write_char target parameter w5 of (e6, w6) \<Rightarrow>
                     if e6 \<noteq> success then (e6, w6)
                     else
                       (case CheckRetry (call target (write_register PC (pc + 2))) 100 w6 of
                          (e7, _, w7) \<Rightarrow>
                        if e7 \<noteq> success then (e7, w7)
                        else
                          (case call target target_resume w7 of (e8, _, w8) \<Rightarrow>
                           if e8 \<noteq> success then (e8, w8) else (success, w8))))
                  else (failure, emit (warning_unsupported_operation operation) w5)))
            else
              (failure,
               emit (warning_unexpected_breakpoint (instr_halfword pc instr_word) pc) w3)))
      else (failure, emit (warning_unexpected_halt dfsr) w1))"

text \<open>
  One pass through the body of the \<^verbatim>\<open>while (true)\<close> loop of \<^verbatim>\<open>host_main\<close>: \<open>Some e\<close> when
  the body returns \<open>e\<close> from \<^verbatim>\<open>host_main\<close>, \<open>None\<close> when control reaches the end of the body
  and the loop goes round again.
\<close>

definition host_main_iteration :: "'t link \<Rightarrow> 't world \<Rightarrow> Error option \<times> 't world" where
  "host_main_iteration target w =
     (case CheckRetry (call target (read_word DHCSR)) 100 w of (e, dhcsr, w1) \<Rightarrow>
      if e \<noteq> success then (Some e, w1)
      else if dhcsr AND DHCSR_S_HALT \<noteq> 0 then
        (case handle_halt target w1 of (e', w2) \<Rightarrow>
         if e' \<noteq> success then (Some e', w2) else (None, w2))
      else (None, w1))"

text \<open>
  The loop has no \<^verbatim>\<open>break\<close> and its condition is \<^verbatim>\<open>true\<close>: it is left only through a
  return inside its body, and a run that never does so has no result (\<open>None\<close>).
\<close>

partial_function (option) host_main_loop ::
  "'t link \<Rightarrow> 't world \<Rightarrow> (Error \<times> 't world) option" where
  "host_main_loop target w =
     (case host_main_iteration target w of
        (Some e, w') \<Rightarrow> Some (e, w')
      | (None, w') \<Rightarrow> host_main_loop target w')"

declare host_main_loop.simps [code]

definition host_main :: "'t link \<Rightarrow> 't world \<Rightarrow> (Error \<times> 't world) option" where
  "host_main swd w =
     (case call swd swd_initialize w of (e1, idcode, w1) \<Rightarrow>
      if e1 \<noteq> success then Some (e1, w1)
      else
        (case call swd swd_enter_reset w1 of (e2, _, w2) \<Rightarrow>
         if e2 \<noteq> success then Some (e2, w2)
         else
           (case call swd dap_reset_state (emit (usleep 10000) w2) of (e3, _, w3) \<Rightarrow>
            if e3 \<noteq> success then Some (e3, w3)
            else
              (case call swd target_initialize w3 of (e4, _, w4) \<Rightarrow>
               if e4 \<noteq> success then Some (e4, w4)
               else
                 (case call swd target_reset_halt_state w4 of (e5, _, w5) \<Rightarrow>
                  if e5 \<noteq> success then Some (e5, w5)
                  else
                    (case call swd swd_leave_reset w5 of (e6, _, w6) \<Rightarrow>
                     if e6 \<noteq> success then Some (e6, w6)
                     else host_main_loop swd w6))))))"

section \<open>The flash dump tool (swddump.cpp)\<close>

definition unmap_boot_sector :: "'t link \<Rightarrow> 't world \<Rightarrow> Error \<times> 't world" where
  "unmap_boot_sector target w =
     (case call target (write_word 0x40048000 2) w of (e, _, w') \<Rightarrow> (e, w'))"

text \<open>
  The \<^verbatim>\<open>for\<close> loop of \<^verbatim>\<open>dump_flash\<close>, entered with the current value of the \<^verbatim>\<open>unsigned\<close>
  counter \<open>i\<close>; \<open>n * 4\<close> and \<open>i + 4\<close> are 32-bit and wrap.
\<close>

partial_function (option) dump_flash_loop ::
  "'t link \<Rightarrow> word_t \<Rightarrow> word_t \<Rightarrow> 't world \<Rightarrow> (Error \<times> 't world) option" where
  "dump_flash_loop target n i w =
     (if i < n * 4 then
        (case call target (read_word i) w of (e, buffer, w1) \<Rightarrow>
         if e \<noteq> success then Some (e, w1)
         else dump_flash_loop target n (i + 4) (emit (notice_word i buffer) w1))
      else Some (success, w))"

declare dump_flash_loop.simps [code]

definition dump_flash :: "'t link \<Rightarrow> word_t \<Rightarrow> 't world \<Rightarrow> (Error \<times> 't world) option" where
  "dump_flash target n w = dump_flash_loop target n 0 (emit (notice_first_words n) w)"

text \<open>
  \<^verbatim>\<open>CommandLine::count\<close> is a \<^verbatim>\<open>Scalar<int>\<close>; its value converts to the \<^verbatim>\<open>unsigned\<close>
  parameter of \<^verbatim>\<open>dump_flash\<close> modulo \<open>2 ^ 32\<close>.
\<close>

definition run_experiment :: "'t link \<Rightarrow> int \<Rightarrow> 't world \<Rightarrow> (Error \<times> 't world) option" where
  "run_experiment swd count w =
     (case call swd swd_initialize w of (e1, _, w1) \<Rightarrow>
      if e1 \<noteq> success then Some (e1, w1)
      else
        (case call swd (swd_reset_target 100000) w1 of (e2, _, w2) \<Rightarrow>
         if e2 \<noteq> success then Some (e2, w2)
         else
           (case call swd dap_reset_state w2 of (e3, _, w3) \<Rightarrow>
            if e3 \<noteq> success then Some (e3, w3)
            else
              (case call swd target_initialize w3 of (e4, _, w4) \<Rightarrow>
               if e4 \<noteq> success then Some (e4, w4)
               else
                 (case call swd target_halt w4 of (e5, _, w5) \<Rightarrow>
                  if e5 \<noteq> success then Some (e5, w5)
                  else
                    (case unmap_boot_sector swd w5 of (e6, w6) \<Rightarrow>
                     if e6 \<noteq> success then Some (e6, w6)
                     else
                       (case dump_flash swd (word_of_int count) w6 of
                          None \<Rightarrow> None
                        | Some (e7, w7) \<Rightarrow>
                            if e7 \<noteq> success then Some (e7, w7)
                            else Some (success, w7))))))))"

section \<open>The flash dump tool with typed remote pointers (second variant)\<close>

text \<open>
  Modelled from the spec: the remote pointer of \<^verbatim>\<open>rptr.h\<close>, which is not among the sources:
  a typed 32-bit target address that is never dereferenced on the host.
\<close>

datatype rptr_const = rptr_const (bits: word_t)

text \<open>
  Modelled from the spec: \<^verbatim>\<open>i < top\<close> on remote pointers. The specification calls a remote
  pointer a 32-bit target address with pointer arithmetic and does not describe the
  comparison; the order taken here is the order of the two addresses as unsigned 32-bit numbers.
\<close>

definition rptr_less :: "rptr_const \<Rightarrow> rptr_const \<Rightarrow> bool" where
  "rptr_less a b = (bits a < bits b)"

text \<open>
  Modelled from the spec: \<^verbatim>\<open>++i\<close>, pointer arithmetic in element units. The pointee is a
  word, so the address advances by \<^verbatim>\<open>sizeof(word_t)\<close> = 4, modulo \<open>2 ^ 32\<close>.
\<close>

definition rptr_incr :: "rptr_const \<Rightarrow> rptr_const" where
  "rptr_incr a = rptr_const (bits a + 4)"

partial_function (option) dump_flash_rptr_loop ::
  "'t link \<Rightarrow> rptr_const \<Rightarrow> rptr_const \<Rightarrow> 't world \<Rightarrow> (Error \<times> 't world) option" where
  "dump_flash_rptr_loop target top' i w =
     (if rptr_less i top' then
        (case call target (read_word (bits i)) w of (e, buffer, w1) \<Rightarrow>
         if e \<noteq> success then Some (e, w1)
         else dump_flash_rptr_loop target top' (rptr_incr i)
                (emit (notice_word (bits i) buffer) w1))
      else Some (success, w))"

declare dump_flash_rptr_loop.simps [code]

definition dump_flash_rptr ::
  "'t link \<Rightarrow> word_t \<Rightarrow> 't world \<Rightarrow> (Error \<times> 't world) option" where
  "dump_flash_rptr target n w =
     dump_flash_rptr_loop target (rptr_const (n * 4)) (rptr_const 0)
       (emit (notice_first_words n) w)"

section \<open>Describing what a dump does\<close>

text \<open>
  The reading of the dump loop that the specification gives: read the words at the given
  addresses one after the other, report each value, and stop at the first read that fails.
\<close>

fun read_words_in_order :: "'t link \<Rightarrow> word_t list \<Rightarrow> 't world \<Rightarrow> Error \<times> 't world" where
  "read_words_in_order target [] w = (success, w)"
| "read_words_in_order target (a # as) w =
     (case call target (read_word a) w of (e, buffer, w1) \<Rightarrow>
      if e \<noteq> success then (e, w1)
      else read_words_in_order target as (emit (notice_word a buffer) w1))"

text \<open>
  A sequence of calls, each under \<^verbatim>\<open>Check\<close>: they are made in order, up to the first one
  that fails, whose error is returned.
\<close>

fun calls_in_order :: "'t link \<Rightarrow> event list \<Rightarrow> 't world \<Rightarrow> Error \<times> 't world" where
  "calls_in_order target [] w = (success, w)"
| "calls_in_order target (c # cs) w =
     (case call target c w of (e, v, w1) \<Rightarrow>
      if e \<noteq> success then (e, w1) else calls_in_order target cs w1)"

text \<open>The address of word number \<open>k\<close>, and the events of reading and reporting words.\<close>

definition word_address :: "nat \<Rightarrow> word_t" where
  "word_address k = of_nat (4 * k)"

definition dump_events :: "(nat \<times> word_t) list \<Rightarrow> event list" where
  "dump_events kvs =
     concat (map (\<lambda>(k, v). [read_word (word_address k), notice_word (word_address k) v]) kvs)"

section \<open>Program entry points\<close>

text \<open>
  \<^verbatim>\<open>main\<close> of the semihosting host and of the dump tool. \<^verbatim>\<open>CommandLine::parse\<close> belongs to
  a library outside the sources and is a parameter; so is the tool's \<^verbatim>\<open>error_main\<close>, which
  may not return at all (\<open>None\<close>). The result is the exit code.
\<close>

definition main_swdhost ::
  "('t world \<Rightarrow> Error \<times> 't world) \<Rightarrow> ('t world \<Rightarrow> (Error \<times> 't world) option) \<Rightarrow>
   't world \<Rightarrow> (int \<times> 't world) option" where
  "main_swdhost parse error_main w =
     (case parse w of (e1, w1) \<Rightarrow>
      if e1 \<noteq> success then Some (1, emit error_stack_print w1)
      else
        (case error_main (emit set_level w1) of
           None \<Rightarrow> None
         | Some (e2, w2) \<Rightarrow>
             if e2 \<noteq> success then Some (1, emit error_stack_print w2)
             else Some (0, w2)))"

definition main_swddump ::
  "('t world \<Rightarrow> Error \<times> 't world) \<Rightarrow> ('t world \<Rightarrow> (Error \<times> 't world) option) \<Rightarrow>
   't world \<Rightarrow> (int \<times> 't world) option" where
  "main_swddump parse error_main w =
     (case parse w of (e1, w1) \<Rightarrow>
      if e1 \<noteq> success then Some (1, emit error_stack_print w1)
      else
        (case error_main (emit set_level w1) of
           None \<Rightarrow> None
         | Some (e2, w2) \<Rightarrow>
             if e2 \<noteq> success then Some (1, emit error_stack_print w2)
             else Some (0, w2)))"

section \<open>A mocked target\<close>

text \<open>
  The mocked target of the semihosting round trip: halted on a breakpoint, the PC at
  0x102 pointing at the halfword 0xBEAB (the high half of the word at 0x100), the operation
  code \<open>op\<close> in R0 and the character X in R1. Every call on it succeeds; DHCSR reads as
  halted, every other word as zero.
\<close>

definition mocked_target :: "word_t \<Rightarrow> unit link" where
  "mocked_target op c t =
     (case c of
        read_word a \<Rightarrow>
          (success,
           if a = DFSR then 0x2 else if a = DHCSR then 0x30003
           else if a = 0x100 then 0xBEAB0000 else 0, t)
      | read_register r \<Rightarrow>
          (success, case r of PC \<Rightarrow> 0x102 | R0 \<Rightarrow> op | R1 \<Rightarrow> 0x58 | _ \<Rightarrow> 0, t)
      | _ \<Rightarrow> (success, 0, t))"

text \<open>A target that is never ready: every call on it asks to be tried again.\<close>

definition busy_target :: "unit link" where
  "busy_target c t = (try_again, 0, t)"

definition mock_world :: "event list \<Rightarrow> unit world" where
  "mock_world evs = \<lparr>link_state = (), trace = evs\<rparr>"

section \<open>Traces of single calls and of retried calls\<close>

lemma call_trace: "call target c w = (e, v, w') \<Longrightarrow> trace w' = trace w @ [c]"
  by (auto simp: call_def split: prod.splits)

lemma emit_trace: "trace (emit ev w) = trace w @ [ev]"
  by (simp add: emit_def)

lemma CheckRetry_call_trace:
  "CheckRetry (call target c) n w = (e, v, w') \<Longrightarrow>
   \<exists>k. 1 \<le> k \<and> k \<le> max 1 n \<and> trace w' = trace w @ replicate k c"
proof (induction n arbitrary: w)
  case 0
  then have "call target c w = (e, v, w')"
    by (subst (asm) CheckRetry.simps) (simp split: prod.splits)
  then have "trace w' = trace w @ replicate 1 c"
    by (simp add: call_trace)
  then show ?case by (intro exI [of _ 1]) simp
next
  case (Suc n)
  obtain e1 v1 w1 where c1: "call target c w = (e1, v1, w1)"
    by (cases "call target c w") auto
  show ?case
  proof (cases "e1 = try_again \<and> 1 < Suc n")
    case True
    with Suc.prems c1 have "CheckRetry (call target c) n w1 = (e, v, w')"
      by (subst (asm) CheckRetry.simps) simp
    from Suc.IH [OF this] obtain k where
      k: "1 \<le> k" "k \<le> max 1 n" "trace w' = trace w1 @ replicate k c" by blast
    from k c1 have "trace w' = trace w @ replicate (Suc k) c"
      by (simp add: call_trace replicate_app_Cons_same)
    with k True show ?thesis by (intro exI [of _ "Suc k"]) auto
  next
    case False
    with Suc.prems c1 have "w' = w1"
      by (subst (asm) CheckRetry.simps) auto
    with c1 have "trace w' = trace w @ replicate 1 c"
      by (simp add: call_trace)
    then show ?thesis by (intro exI [of _ 1]) simp
  qed
qed

lemma CheckRetry_no_retry:
  "expression s = (e, v, s') \<Longrightarrow> e \<noteq> try_again \<Longrightarrow> CheckRetry expression n s = (e, v, s')"
  by (subst CheckRetry.simps) simp

lemma CheckRetry_call_100:
  assumes "CheckRetry (call target c) 100 w = (e, v, w')"
  obtains k where "1 \<le> k" "k \<le> 100" "trace w' = trace w @ replicate k c"
  using CheckRetry_call_trace [OF assms] by auto

lemma events_since_append: "trace w' = trace w @ xs \<Longrightarrow> events_since w w' = xs"
  by (simp add: events_since_def)

lemma call_ok:
  assumes "\<forall>c t. fst (target c t) = success"
  shows "fst (call target c w) = success"
  using assms by (simp add: call_def split: prod.splits) (metis fst_conv)

lemma CheckRetry_ok:
  assumes "\<forall>c t. fst (target c t) = success"
  shows "CheckRetry (call target c) n w = call target c w"
proof -
  obtain e v w' where c: "call target c w = (e, v, w')"
    by (cases "call target c w") auto
  with call_ok [OF assms, of c w] have "e = success" by simp
  with c show ?thesis by (simp add: CheckRetry_no_retry)
qed

lemma CheckRetry_call_exhausted:
  "CheckRetry (call target c) n w = (try_again, v, w') \<Longrightarrow>
   trace w' = trace w @ replicate (max 1 n) c"
proof (induction n arbitrary: w)
  case 0
  then have "call target c w = (try_again, v, w')"
    by (subst (asm) CheckRetry.simps) (simp split: prod.splits)
  then show ?case by (simp add: call_trace)
next
  case (Suc n)
  obtain e1 v1 w1 where c1: "call target c w = (e1, v1, w1)"
    by (cases "call target c w") auto
  show ?case
  proof (cases "e1 = try_again \<and> 1 < Suc n")
    case True
    with Suc.prems c1 have "CheckRetry (call target c) n w1 = (try_again, v, w')"
      by (subst (asm) CheckRetry.simps) simp
    from Suc.IH [OF this] have "trace w' = trace w1 @ replicate (max 1 n) c" .
    with c1 True show ?thesis
      by (simp add: call_trace replicate_app_Cons_same max_def)
  next
    case False
    with Suc.prems c1 have "w' = w1" "e1 = try_again"
      by (subst (asm) CheckRetry.simps, auto)+
    with c1 False show ?thesis
      by (simp add: call_trace)
  qed
qed

lemma CheckRetry_call_trace100:
  "CheckRetry (call target c) 100 w = (e, v, w') \<Longrightarrow>
   \<exists>k. 1 \<le> k \<and> k \<le> 100 \<and> trace w' = trace w @ replicate k c"
  using CheckRetry_call_trace [of target c 100 w e v w'] by simp

lemma CheckRetry_call_events:
  assumes "CheckRetry (call target c) 100 w = (e, v, w')"
  shows "\<exists>k. 1 \<le> k \<and> k \<le> 100 \<and> events_since w w' = replicate k c \<and> (e = try_again \<longrightarrow> k = 100)"
proof (cases "e = try_again")
  case True
  with assms have "trace w' = trace w @ replicate 100 c"
    using CheckRetry_call_exhausted [of target c 100 w v w'] by simp
  then show ?thesis by (intro exI [of _ 100]) (simp add: events_since_append)
next
  case False
  from assms obtain k where "1 \<le> k" "k \<le> 100" "trace w' = trace w @ replicate k c"
    by (rule CheckRetry_call_100)
  with False show ?thesis by (intro exI [of _ k]) (simp add: events_since_append)
qed

lemma CheckRetry_call_length:
  assumes "CheckRetry (call target c) 100 w = (e, v, w')"
  shows "length (trace w') \<le> length (trace w) + 100"
  using CheckRetry_call_trace100 [OF assms] by auto

lemma call_length: "call target c w = (e, v, w') \<Longrightarrow> length (trace w') = length (trace w) + 1"
  by (simp add: call_trace)

lemma mocked_target_ok: "\<forall>c t. fst (mocked_target op c t) = success"
  by (simp add: mocked_target_def split: event.split)

lemma mocked_call:
  "call (mocked_target op) c (mock_world evs) =
     (success, fst (snd (mocked_target op c ())), mock_world (evs @ [c]))"
  by (simp add: call_def mock_world_def mocked_target_def split: event.split)

lemma mocked_CheckRetry:
  "CheckRetry (call (mocked_target op) c) n (mock_world evs) =
     (success, fst (snd (mocked_target op c ())), mock_world (evs @ [c]))"
  by (simp add: CheckRetry_ok [OF mocked_target_ok] mocked_call)

lemma mocked_emit: "emit ev (mock_world evs) = mock_world (evs @ [ev])"
  by (simp add: emit_def mock_world_def)

lemma mocked_values:
  "fst (snd (mocked_target op (read_word DFSR) ())) = 0x2"
  "fst (snd (mocked_target op (read_word DHCSR) ())) = 0x30003"
  "fst (snd (mocked_target op (read_word 0x100) ())) = 0xBEAB0000"
  "fst (snd (mocked_target op (read_register PC) ())) = 0x102"
  "fst (snd (mocked_target op (read_register R0) ())) = op"
  "fst (snd (mocked_target op (read_register R1) ())) = 0x58"
  by (simp_all add: mocked_target_def DFSR_def DHCSR_def)

section \<open>Servicing a halt\<close>

text \<open>
  C1. Take a halt in which the reads of the target deliver a DFSR whose masked reason is BKPT,
  a PC, an instruction word whose halfword at PC is 0xBEAB, the operation code 3 in R0 and a
  parameter in R1, and in which the target accepts the write of the PC and the resume.
  Then \<open>handle_halt\<close> returns success, and after its reads it does exactly this, in this
  order: it puts the low byte of R1 on the console, flushes, writes PC + 2 to the PC
  register (repeated only while the write asks to be tried again) and resumes the target.
  The trace holds no other write: R0 in particular is left alone.
\<close>

theorem handle_halt_sys_writec:
  assumes dfsr: "CheckRetry (call target (read_word DFSR)) 100 w = (success, dfsr, w1)"
    and bkpt: "dfsr AND DFSR_reason_mask = DFSR_BKPT"
    and pc: "CheckRetry (call target (read_register PC)) 100 w1 = (success, pc, w2)"
    and fetch: "CheckRetry (call target (read_word (pc AND NOT 3))) 100 w2 = (success, instr_word, w3)"
    and instr: "instr_halfword pc instr_word = 0xBEAB"
    and r0: "CheckRetry (call target (read_register R0)) 100 w3 = (success, 3, w4)"
    and r1: "CheckRetry (call target (read_register R1)) 100 w4 = (success, parameter, w5)"
    and wr: "CheckRetry (call target (write_register PC (pc + 2))) 100
               (emit fflush_stdout (emit (putchar (ucast parameter)) w5)) = (success, x, w7)"
    and res: "call target target_resume w7 = (success, y, w8)"
  shows "handle_halt target w = (success, w8) \<and>
         (\<exists>k1 k2 k3 k4 k5 k6.
            1 \<le> k1 \<and> k1 \<le> 100 \<and> 1 \<le> k2 \<and> k2 \<le> 100 \<and> 1 \<le> k3 \<and> k3 \<le> 100 \<and>
            1 \<le> k4 \<and> k4 \<le> 100 \<and> 1 \<le> k5 \<and> k5 \<le> 100 \<and> 1 \<le> k6 \<and> k6 \<le> 100 \<and>
            events_since w w8 =
              replicate k1 (read_word DFSR) @ replicate k2 (read_register PC)
              @ replicate k3 (read_word (pc AND NOT 3)) @ replicate k4 (read_register R0)
              @ replicate k5 (read_register R1)
              @ [putchar (ucast parameter), fflush_stdout]
              @ replicate k6 (write_register PC (pc + 2)) @ [target_resume]) \<and>
         unat (ucast parameter :: 8 word) = unat parameter mod 256"
proof (intro conjI)
  show "handle_halt target w = (success, w8)"
    using assms by (simp add: handle_halt_def write_char_def)
next
  from dfsr obtain k1 where k1: "1 \<le> k1" "k1 \<le> 100"
    "trace w1 = trace w @ replicate k1 (read_word DFSR)"
    by (rule CheckRetry_call_100)
  from pc obtain k2 where k2: "1 \<le> k2" "k2 \<le> 100"
    "trace w2 = trace w1 @ replicate k2 (read_register PC)"
    by (rule CheckRetry_call_100)
  from fetch obtain k3 where k3: "1 \<le> k3" "k3 \<le> 100"
    "trace w3 = trace w2 @ replicate k3 (read_word (pc AND NOT 3))"
    by (rule CheckRetry_call_100)
  from r0 obtain k4 where k4: "1 \<le> k4" "k4 \<le> 100"
    "trace w4 = trace w3 @ replicate k4 (read_register R0)"
    by (rule CheckRetry_call_100)
  from r1 obtain k5 where k5: "1 \<le> k5" "k5 \<le> 100"
    "trace w5 = trace w4 @ replicate k5 (read_register R1)"
    by (rule CheckRetry_call_100)
  from wr obtain k6 where k6: "1 \<le> k6" "k6 \<le> 100"
    "trace w7 = trace (emit fflush_stdout (emit (putchar (ucast parameter)) w5))
      @ replicate k6 (write_register PC (pc + 2))"
    by (rule CheckRetry_call_100)
  from res have "trace w8 = trace w7 @ [target_resume]"
    by (rule call_trace)
  with k1(3) k2(3) k3(3) k4(3) k5(3) k6(3) have "events_since w w8 =
      replicate k1 (read_word DFSR) @ replicate k2 (read_register PC)
      @ replicate k3 (read_word (pc AND NOT 3)) @ replicate k4 (read_register R0)
      @ replicate k5 (read_register R1)
      @ [putchar (ucast parameter), fflush_stdout]
      @ replicate k6 (write_register PC (pc + 2)) @ [target_resume]"
    by (simp add: emit_trace events_since_def)
  with k1(1,2) k2(1,2) k3(1,2) k4(1,2) k5(1,2) k6(1,2) show "\<exists>k1 k2 k3 k4 k5 k6.
            1 \<le> k1 \<and> k1 \<le> 100 \<and> 1 \<le> k2 \<and> k2 \<le> 100 \<and> 1 \<le> k3 \<and> k3 \<le> 100 \<and>
            1 \<le> k4 \<and> k4 \<le> 100 \<and> 1 \<le> k5 \<and> k5 \<le> 100 \<and> 1 \<le> k6 \<and> k6 \<le> 100 \<and>
            events_since w w8 =
              replicate k1 (read_word DFSR) @ replicate k2 (read_register PC)
              @ replicate k3 (read_word (pc AND NOT 3)) @ replicate k4 (read_register R0)
              @ replicate k5 (read_register R1)
              @ [putchar (ucast parameter), fflush_stdout]
              @ replicate k6 (write_register PC (pc + 2)) @ [target_resume]"
    by blast
next
  show "unat (ucast parameter :: 8 word) = unat parameter mod 256"
    by (simp add: unsigned_ucast_eq take_bit_eq_mod)
qed

theorem handle_halt_sys_writec_witness:
  "handle_halt (mocked_target 3) (mock_world []) =
     (success,
      mock_world [read_word DFSR, read_register PC, read_word 0x100, read_register R0,
        read_register R1, putchar 0x58, fflush_stdout, write_register PC 0x104,
        target_resume])"
proof -
  have a: "((0x102 :: word_t) AND NOT 3) = 0x100" by simp
  have h1: "CheckRetry (call (mocked_target 3) (read_word DFSR)) 100 (mock_world []) =
      (success, 0x2, mock_world [read_word DFSR])"
    by (simp add: mocked_CheckRetry mocked_values)
  have h2: "(0x2 :: word_t) AND DFSR_reason_mask = DFSR_BKPT"
    by (simp add: DFSR_reason_mask_def DFSR_BKPT_def)
  have h3: "CheckRetry (call (mocked_target 3) (read_register PC)) 100
      (mock_world [read_word DFSR]) =
      (success, 0x102, mock_world [read_word DFSR, read_register PC])"
    by (simp add: mocked_CheckRetry mocked_values)
  have h4: "CheckRetry (call (mocked_target 3) (read_word (0x102 AND NOT 3))) 100
      (mock_world [read_word DFSR, read_register PC]) =
      (success, 0xBEAB0000, mock_world [read_word DFSR, read_register PC, read_word 0x100])"
    by (simp only: a) (simp add: mocked_CheckRetry mocked_values)
  have h5: "instr_halfword 0x102 0xBEAB0000 = 0xBEAB"
    by (simp add: instr_halfword_def)
  have h6: "CheckRetry (call (mocked_target 3) (read_register R0)) 100
      (mock_world [read_word DFSR, read_register PC, read_word 0x100]) =
      (success, 3,
       mock_world [read_word DFSR, read_register PC, read_word 0x100, read_register R0])"
    by (simp add: mocked_CheckRetry mocked_values)
  have h7: "CheckRetry (call (mocked_target 3) (read_register R1)) 100
      (mock_world [read_word DFSR, read_register PC, read_word 0x100, read_register R0]) =
      (success, 0x58,
       mock_world [read_word DFSR, read_register PC, read_word 0x100, read_register R0,
         read_register R1])"
    by (simp add: mocked_CheckRetry mocked_values)
  have h8: "CheckRetry (call (mocked_target 3) (write_register PC (0x102 + 2))) 100
      (emit fflush_stdout (emit (putchar (ucast (0x58 :: word_t)))
        (mock_world [read_word DFSR, read_register PC, read_word 0x100, read_register R0,
           read_register R1]))) =
      (success, 0,
       mock_world [read_word DFSR, read_register PC, read_word 0x100, read_register R0,
         read_register R1, putchar 0x58, fflush_stdout, write_register PC 0x104])"
    by (simp add: mocked_CheckRetry mocked_emit mocked_target_def)
  have h9: "call (mocked_target 3) target_resume
      (mock_world [read_word DFSR, read_register PC, read_word 0x100, read_register R0,
         read_register R1, putchar 0x58, fflush_stdout, write_register PC 0x104]) =
      (success, 0,
       mock_world [read_word DFSR, read_register PC, read_word 0x100, read_register R0,
         read_register R1, putchar 0x58, fflush_stdout, write_register PC 0x104,
         target_resume])"
    by (simp add: mocked_call mocked_target_def)
  from handle_halt_sys_writec [OF h1 h2 h3 h4 h5 h6 h7 h8 h9] show ?thesis
    by simp
qed

text \<open>
  C2. On a target whose every call succeeds (reads, writes and the resume alike),
  \<open>handle_halt\<close> returns an error exactly when the masked DFSR reason is not BKPT, or the
  instruction halfword is not 0xBEAB, or the operation code in R0 is not 3; and whenever it
  returns an error it has neither written the PC register nor resumed the target.
\<close>

theorem handle_halt_error_iff:
  assumes ok: "\<forall>c t. fst (target c t) = success"
    and dfsr: "call target (read_word DFSR) w = (e1, dfsr, w1)"
    and pc: "call target (read_register PC) w1 = (e2, pc, w2)"
    and fetch: "call target (read_word (pc AND NOT 3)) w2 = (e3, instr_word, w3)"
    and r0: "call target (read_register R0) w3 = (e4, operation, w4)"
    and hh: "handle_halt target w = (e, w')"
  shows "(e \<noteq> success \<longleftrightarrow>
            dfsr AND DFSR_reason_mask \<noteq> DFSR_BKPT \<or> instr_halfword pc instr_word \<noteq> 0xBEAB
            \<or> operation \<noteq> 0x3) \<and>
         (e \<noteq> success \<longrightarrow>
            target_resume \<notin> set (events_since w w') \<and>
            (\<forall>v. write_register PC v \<notin> set (events_since w w')))"
proof -
  have s: "e1 = success" "e2 = success" "e3 = success" "e4 = success"
    using call_ok [OF ok, of "read_word DFSR" w] call_ok [OF ok, of "read_register PC" w1]
      call_ok [OF ok, of "read_word (pc AND NOT 3)" w2] call_ok [OF ok, of "read_register R0" w3]
      dfsr pc fetch r0 by simp_all
  obtain e5 parameter w5 where r1: "call target (read_register R1) w4 = (e5, parameter, w5)"
    by (cases "call target (read_register R1) w4") auto
  obtain e7 x w7 where wr: "call target (write_register PC (pc + 2))
      (emit fflush_stdout (emit (putchar (ucast parameter)) w5)) = (e7, x, w7)"
    by (cases "call target (write_register PC (pc + 2))
      (emit fflush_stdout (emit (putchar (ucast parameter)) w5))") auto
  obtain e8 y w8 where res: "call target target_resume w7 = (e8, y, w8)"
    by (cases "call target target_resume w7") auto
  have s': "e5 = success" "e7 = success" "e8 = success"
    using call_ok [OF ok, of "read_register R1" w4]
      call_ok [OF ok, of "write_register PC (pc + 2)" "emit fflush_stdout (emit (putchar (ucast parameter)) w5)"]
      call_ok [OF ok, of target_resume w7] r1 wr res by simp_all
  note t = call_trace [OF dfsr] call_trace [OF pc] call_trace [OF fetch] call_trace [OF r0]
    call_trace [OF r1]
  consider (halt) "dfsr AND DFSR_reason_mask \<noteq> DFSR_BKPT"
    | (bkpt) "dfsr AND DFSR_reason_mask = DFSR_BKPT" "instr_halfword pc instr_word \<noteq> 0xBEAB"
    | (op) "dfsr AND DFSR_reason_mask = DFSR_BKPT" "instr_halfword pc instr_word = 0xBEAB"
        "operation \<noteq> 0x3"
    | (writec) "dfsr AND DFSR_reason_mask = DFSR_BKPT" "instr_halfword pc instr_word = 0xBEAB"
        "operation = 0x3"
    by blast
  then show ?thesis
  proof cases
    case halt
    with hh dfsr s have "e = failure" "w' = emit (warning_unexpected_halt dfsr) w1"
      by (simp_all add: handle_halt_def CheckRetry_ok [OF ok])
    with t halt show ?thesis
      by (simp add: emit_trace events_since_append)
  next
    case bkpt
    with hh dfsr pc fetch s have "e = failure"
      "w' = emit (warning_unexpected_breakpoint (instr_halfword pc instr_word) pc) w3"
      by (simp_all add: handle_halt_def CheckRetry_ok [OF ok])
    with t bkpt show ?thesis
      by (simp add: emit_trace events_since_append)
  next
    case op
    with hh dfsr pc fetch r0 r1 s s' have "e = failure"
      "w' = emit (warning_unsupported_operation operation) w5"
      by (simp_all add: handle_halt_def CheckRetry_ok [OF ok])
    with t op show ?thesis
      by (simp add: emit_trace events_since_append)
  next
    case writec
    with hh dfsr pc fetch r0 r1 wr res s s' have "e = success"
      by (simp add: handle_halt_def CheckRetry_ok [OF ok] write_char_def)
    with writec show ?thesis by simp
  qed
qed

theorem handle_halt_error_iff_witness:
  "fst (handle_halt (mocked_target 4) (mock_world [])) = failure \<and>
   target_resume \<notin> set (events_since (mock_world [])
     (snd (handle_halt (mocked_target 4) (mock_world [])))) \<and>
   (\<forall>v. write_register PC v \<notin> set (events_since (mock_world [])
     (snd (handle_halt (mocked_target 4) (mock_world [])))))"
proof -
  have a: "((0x102 :: word_t) AND NOT 3) = 0x100" by simp
  have h1: "call (mocked_target 4) (read_word DFSR) (mock_world []) =
      (success, 0x2, mock_world [read_word DFSR])"
    by (simp add: mocked_call mocked_values)
  have h2: "call (mocked_target 4) (read_register PC) (mock_world [read_word DFSR]) =
      (success, 0x102, mock_world [read_word DFSR, read_register PC])"
    by (simp add: mocked_call mocked_values)
  have h3: "call (mocked_target 4) (read_word (0x102 AND NOT 3))
      (mock_world [read_word DFSR, read_register PC]) =
      (success, 0xBEAB0000, mock_world [read_word DFSR, read_register PC, read_word 0x100])"
    by (simp only: a) (simp add: mocked_call mocked_values)
  have h4: "call (mocked_target 4) (read_register R0)
      (mock_world [read_word DFSR, read_register PC, read_word 0x100]) =
      (success, 4,
       mock_world [read_word DFSR, read_register PC, read_word 0x100, read_register R0])"
    by (simp add: mocked_call mocked_values)
  have h5: "handle_halt (mocked_target 4) (mock_world []) =
      (failure,
       mock_world [read_word DFSR, read_register PC, read_word 0x100, read_register R0,
         read_register R1, warning_unsupported_operation 4])"
    by (simp add: handle_halt_def mocked_CheckRetry mocked_values mocked_emit a
        DFSR_reason_mask_def DFSR_BKPT_def instr_halfword_def)
  from handle_halt_error_iff [OF mocked_target_ok h1 h2 h3 h4 h5] show ?thesis
    by (simp add: h5)
qed

lemma mocked_serviced:
  "handle_halt (mocked_target 3) (mock_world evs) =
     (success,
      mock_world (evs @ [read_word DFSR, read_register PC, read_word 0x100, read_register R0,
        read_register R1, putchar 0x58, fflush_stdout, write_register PC 0x104,
        target_resume]))"
proof -
  have a: "((0x102 :: word_t) AND NOT 3) = 0x100" by simp
  show ?thesis
    by (simp add: handle_halt_def mocked_CheckRetry mocked_call mocked_values mocked_emit a
        write_char_def DFSR_reason_mask_def DFSR_BKPT_def instr_halfword_def)
qed

lemma mocked_unsupported:
  "handle_halt (mocked_target 4) (mock_world evs) =
     (failure,
      mock_world (evs @ [read_word DFSR, read_register PC, read_word 0x100, read_register R0,
        read_register R1, warning_unsupported_operation 4]))"
proof -
  have a: "((0x102 :: word_t) AND NOT 3) = 0x100" by simp
  show ?thesis
    by (simp add: handle_halt_def mocked_CheckRetry mocked_values mocked_emit a
        DFSR_reason_mask_def DFSR_BKPT_def instr_halfword_def)
qed

lemma mocked_events_since: "events_since (mock_world evs) (mock_world (evs @ xs)) = xs"
  by (simp add: events_since_def mock_world_def)

section \<open>The instruction fetch\<close>

lemma fetch_address_aligned: "4 dvd unat ((pc :: word_t) AND NOT 3)"
proof -
  have "(pc AND NOT 3) AND mask 2 = 0"
    by (simp add: mask_eq_exp_minus_1 and.assoc)
  then have "take_bit 2 (pc AND NOT 3) = 0"
    by (simp add: take_bit_eq_mask)
  then have "take_bit 2 (unat (pc AND NOT 3)) = 0"
    by (metis unsigned_take_bit_eq unsigned_0)
  then show ?thesis
    by (simp add: take_bit_eq_mod mod_eq_0_iff_dvd)
qed

lemma low_halfword_mask: "(0xFFFF :: word_t) = mask 16"
  by (simp add: mask_eq_exp_minus_1)

lemma instr_halfword_bits: "i < 16 \<Longrightarrow> bit (instr_halfword pc iw) i = bit iw (if pc AND 2 \<noteq> 0 then 16 + i else i)"
  by (simp add: instr_halfword_def low_halfword_mask bit_ucast_iff bit_drop_bit_eq bit_and_iff bit_mask_iff)

text \<open>
  C3. After a halt whose masked DFSR reason is BKPT and a successful read of the PC, the
  trace of \<open>handle_halt\<close> is: the reads of DFSR, the reads of the PC, then the word read at
  \<open>pc AND NOT 3\<close>, an address whose two low bits are zero (a multiple of 4), attempted \<open>k\<close>
  times with \<open>1 \<le> k \<le> 100\<close> and exactly once unless the target asks to be tried again, and
  then a rest without any access to target memory, of any width: the memory accesses from
  the PC read on are those of this one fetch. When the fetch fails, \<open>handle_halt\<close> returns
  its error at once; when the halfword is 0xBEAB the next event is the read of R0; and
  else it returns failure with the warning that names this halfword. Bit \<open>i\<close> of the halfword
  compared with 0xBEAB is bit \<open>16 + i\<close> of the fetched word when \<open>pc AND 2\<close> is not zero and
  bit \<open>i\<close> otherwise.
\<close>

theorem handle_halt_instruction_fetch:
  assumes dfsr: "CheckRetry (call target (read_word DFSR)) 100 w = (success, dfsr, w1)"
    and bkpt: "dfsr AND DFSR_reason_mask = DFSR_BKPT"
    and pc: "CheckRetry (call target (read_register PC)) 100 w1 = (success, pc, w2)"
    and fetch: "CheckRetry (call target (read_word (pc AND NOT 3))) 100 w2 = (e3, instr_word, w3)"
    and hh: "handle_halt target w = (e, w')"
  shows "(pc AND NOT 3) AND 3 = 0 \<and> 4 dvd unat (pc AND NOT 3) \<and>
    (\<exists>k. 1 \<le> k \<and> k \<le> 100 \<and> trace w3 = trace w2 @ replicate k (read_word (pc AND NOT 3))) \<and>
    (fst (call target (read_word (pc AND NOT 3)) w2) \<noteq> try_again \<longrightarrow>
       trace w3 = trace w2 @ [read_word (pc AND NOT 3)]) \<and>
    (\<exists>rest. trace w' = trace w3 @ rest \<and> (\<forall>ev \<in> set rest. \<not> memory_access ev) \<and>
       (e3 \<noteq> success \<longrightarrow> e = e3 \<and> w' = w3) \<and>
       (e3 = success \<longrightarrow>
          (if instr_halfword pc instr_word = 0xBEAB then (\<exists>rest'. rest = read_register R0 # rest')
           else e = failure \<and>
             w' = emit (warning_unexpected_breakpoint (instr_halfword pc instr_word) pc) w3))) \<and>
    filter memory_access (events_since w2 w') = events_since w2 w3 \<and>
    (\<forall>i<16. bit (instr_halfword pc instr_word) i =
       bit instr_word (if pc AND 2 \<noteq> 0 then 16 + i else i)) \<and>
    (\<exists>k1 k2 k rest. 1 \<le> k \<and> k \<le> 100 \<and>
       (fst (call target (read_word (pc AND NOT 3)) w2) \<noteq> try_again \<longrightarrow> k = 1) \<and>
       trace w' = trace w @ replicate k1 (read_word DFSR) @ replicate k2 (read_register PC) @
         replicate k (read_word (pc AND NOT 3)) @ rest \<and>
       (\<forall>ev \<in> set rest. \<not> memory_access ev))"
proof -
  from fetch obtain k where k: "1 \<le> k" "k \<le> 100"
    "trace w3 = trace w2 @ replicate k (read_word (pc AND NOT 3))"
    by (rule CheckRetry_call_100)
  have single: "trace w3 = trace w2 @ [read_word (pc AND NOT 3)]"
    if n: "fst (call target (read_word (pc AND NOT 3)) w2) \<noteq> try_again"
  proof -
    obtain e0 v0 w0 where c: "call target (read_word (pc AND NOT 3)) w2 = (e0, v0, w0)"
      by (cases "call target (read_word (pc AND NOT 3)) w2") auto
    with n have "CheckRetry (call target (read_word (pc AND NOT 3))) 100 w2 = (e0, v0, w0)"
      by (simp add: CheckRetry_no_retry)
    with fetch have "w3 = w0" by simp
    with c show ?thesis by (simp add: call_trace)
  qed
  obtain e4 operation w4 where
    s4: "CheckRetry (call target (read_register R0)) 100 w3 = (e4, operation, w4)"
    by (cases "CheckRetry (call target (read_register R0)) 100 w3") auto
  obtain e5 parameter w5 where
    s5: "CheckRetry (call target (read_register R1)) 100 w4 = (e5, parameter, w5)"
    by (cases "CheckRetry (call target (read_register R1)) 100 w4") auto
  obtain e7 x w7 where
    s7: "CheckRetry (call target (write_register PC (pc + 2))) 100
           (emit fflush_stdout (emit (putchar (ucast parameter)) w5)) = (e7, x, w7)"
    by (cases "CheckRetry (call target (write_register PC (pc + 2))) 100
           (emit fflush_stdout (emit (putchar (ucast parameter)) w5))") auto
  obtain e8 y w8 where s8: "call target target_resume w7 = (e8, y, w8)"
    by (cases "call target target_resume w7") auto
  from s4 obtain k4 where k4: "1 \<le> k4" "trace w4 = trace w3 @ replicate k4 (read_register R0)"
    by (rule CheckRetry_call_100)
  from s5 obtain k5 where k5: "trace w5 = trace w4 @ replicate k5 (read_register R1)"
    by (rule CheckRetry_call_100)
  from s7 obtain k7 where k7: "trace w7 =
      trace (emit fflush_stdout (emit (putchar (ucast parameter)) w5)) @
      replicate k7 (write_register PC (pc + 2))"
    by (rule CheckRetry_call_100)
  note t8 = call_trace [OF s8]
  from k4(1) obtain k4' where k4': "k4 = Suc k4'" by (cases k4) auto
  have run: "\<exists>rest. trace w' = trace w3 @ rest \<and> (\<forall>ev \<in> set rest. \<not> memory_access ev) \<and>
       (e3 \<noteq> success \<longrightarrow> e = e3 \<and> w' = w3) \<and>
       (e3 = success \<longrightarrow>
          (if instr_halfword pc instr_word = 0xBEAB then (\<exists>rest'. rest = read_register R0 # rest')
           else e = failure \<and>
             w' = emit (warning_unexpected_breakpoint (instr_halfword pc instr_word) pc) w3))"
  proof (cases "e3 = success")
    case False
    with hh dfsr bkpt pc fetch have "e = e3" "w' = w3"
      by (simp_all add: handle_halt_def)
    with False show ?thesis by (intro exI [of _ "[]"]) simp
  next
    case e3: True
    show ?thesis
    proof (cases "instr_halfword pc instr_word = 0xBEAB")
      case False
      with hh dfsr bkpt pc fetch e3 have r: "e = failure"
        "w' = emit (warning_unexpected_breakpoint (instr_halfword pc instr_word) pc) w3"
        by (simp_all add: handle_halt_def)
      with False e3 show ?thesis
        by (intro exI [of _ "[warning_unexpected_breakpoint (instr_halfword pc instr_word) pc]"])
          (simp add: emit_trace)
    next
      case instr: True
      consider (f4) "e4 \<noteq> success"
        | (f5) "e4 = success" "e5 \<noteq> success"
        | (op) "e4 = success" "e5 = success" "operation \<noteq> 0x3"
        | (f7) "e4 = success" "e5 = success" "operation = 0x3" "e7 \<noteq> success"
        | (f8) "e4 = success" "e5 = success" "operation = 0x3" "e7 = success"
        by blast
      then show ?thesis
      proof cases
        case f4
        with hh dfsr bkpt pc fetch e3 instr s4 have "w' = w4"
          by (simp add: handle_halt_def)
        with k4 k4' e3 instr show ?thesis
          by (intro exI [of _ "replicate k4 (read_register R0)"]) simp
      next
        case f5
        with hh dfsr bkpt pc fetch e3 instr s4 s5 have "w' = w5"
          by (simp add: handle_halt_def)
        with k4 k4' k5 e3 instr show ?thesis
          by (intro exI [of _ "replicate k4 (read_register R0) @ replicate k5 (read_register R1)"])
            auto
      next
        case op
        with hh dfsr bkpt pc fetch e3 instr s4 s5 have
          "w' = emit (warning_unsupported_operation operation) w5"
          by (simp add: handle_halt_def)
        with k4 k4' k5 e3 instr show ?thesis
          by (intro exI [of _ "replicate k4 (read_register R0) @ replicate k5 (read_register R1)
              @ [warning_unsupported_operation operation]"])
            (auto simp: emit_trace)
      next
        case f7
        with hh dfsr bkpt pc fetch e3 instr s4 s5 s7 have "w' = w7"
          by (simp add: handle_halt_def write_char_def)
        with k4 k4' k5 k7 e3 instr show ?thesis
          by (intro exI [of _ "replicate k4 (read_register R0) @ replicate k5 (read_register R1)
              @ [putchar (ucast parameter), fflush_stdout]
              @ replicate k7 (write_register PC (pc + 2))"])
            (auto simp: emit_trace)
      next
        case f8
        with hh dfsr bkpt pc fetch e3 instr s4 s5 s7 s8 have "w' = w8"
          by (auto simp: handle_halt_def write_char_def split: if_splits)
        with k4 k4' k5 k7 t8 e3 instr show ?thesis
          by (intro exI [of _ "replicate k4 (read_register R0) @ replicate k5 (read_register R1)
              @ [putchar (ucast parameter), fflush_stdout]
              @ replicate k7 (write_register PC (pc + 2)) @ [target_resume]"])
            (auto simp: emit_trace)
      qed
    qed
  qed
  from run obtain rest where rest: "trace w' = trace w3 @ rest"
    "\<forall>ev \<in> set rest. \<not> memory_access ev" by blast
  then have nomem: "filter memory_access rest = []"
    by (simp add: filter_empty_conv)
  have filt: "filter memory_access (events_since w2 w') = events_since w2 w3"
    using rest(1) k(3) nomem by (simp add: events_since_def)
  from dfsr obtain k1 where k1: "trace w1 = trace w @ replicate k1 (read_word DFSR)"
    by (rule CheckRetry_call_100)
  from pc obtain k2 where k2: "trace w2 = trace w1 @ replicate k2 (read_register PC)"
    by (rule CheckRetry_call_100)
  have one: "k = 1" if n: "fst (call target (read_word (pc AND NOT 3)) w2) \<noteq> try_again"
  proof -
    from single [OF n] k(3) have "replicate k (read_word (pc AND NOT 3)) =
        [read_word (pc AND NOT 3)]"
      by simp
    then have "length (replicate k (read_word (pc AND NOT 3))) = 1" by simp
    then show ?thesis by simp
  qed
  have whole: "\<exists>k1 k2 k rest. 1 \<le> k \<and> k \<le> 100 \<and>
       (fst (call target (read_word (pc AND NOT 3)) w2) \<noteq> try_again \<longrightarrow> k = 1) \<and>
       trace w' = trace w @ replicate k1 (read_word DFSR) @ replicate k2 (read_register PC) @
         replicate k (read_word (pc AND NOT 3)) @ rest \<and>
       (\<forall>ev \<in> set rest. \<not> memory_access ev)"
    using k(1,2) one rest k1 k2 k(3)
    by (intro exI [of _ k1] exI [of _ k2] exI [of _ k] exI [of _ rest]) simp
  show ?thesis
  proof (intro conjI)
    show "(pc AND NOT 3) AND 3 = 0" by (simp add: and.assoc)
    show "4 dvd unat (pc AND NOT 3)" by (rule fetch_address_aligned)
    show "\<exists>k. 1 \<le> k \<and> k \<le> 100 \<and>
        trace w3 = trace w2 @ replicate k (read_word (pc AND NOT 3))"
      using k by blast
    show "fst (call target (read_word (pc AND NOT 3)) w2) \<noteq> try_again \<longrightarrow>
        trace w3 = trace w2 @ [read_word (pc AND NOT 3)]"
      using single by blast
    show "\<exists>rest. trace w' = trace w3 @ rest \<and> (\<forall>ev \<in> set rest. \<not> memory_access ev) \<and>
       (e3 \<noteq> success \<longrightarrow> e = e3 \<and> w' = w3) \<and>
       (e3 = success \<longrightarrow>
          (if instr_halfword pc instr_word = 0xBEAB then (\<exists>rest'. rest = read_register R0 # rest')
           else e = failure \<and>
             w' = emit (warning_unexpected_breakpoint (instr_halfword pc instr_word) pc) w3))"
      by (rule run)
    show "filter memory_access (events_since w2 w') = events_since w2 w3"
      by (rule filt)
    show "\<forall>i<16. bit (instr_halfword pc instr_word) i =
        bit instr_word (if pc AND 2 \<noteq> 0 then 16 + i else i)"
      by (simp add: instr_halfword_bits)
    show "\<exists>k1 k2 k rest. 1 \<le> k \<and> k \<le> 100 \<and>
       (fst (call target (read_word (pc AND NOT 3)) w2) \<noteq> try_again \<longrightarrow> k = 1) \<and>
       trace w' = trace w @ replicate k1 (read_word DFSR) @ replicate k2 (read_register PC) @
         replicate k (read_word (pc AND NOT 3)) @ rest \<and>
       (\<forall>ev \<in> set rest. \<not> memory_access ev)"
      by (rule whole)
  qed
qed

theorem handle_halt_instruction_fetch_witness:
  "trace (mock_world [read_word DFSR, read_register PC, read_word 0x100]) =
     trace (mock_world [read_word DFSR, read_register PC]) @ [read_word 0x100] \<and>
   (\<exists>rest rest'.
      trace (mock_world [read_word DFSR, read_register PC, read_word 0x100, read_register R0,
        read_register R1, putchar 0x58, fflush_stdout, write_register PC 0x104,
        target_resume]) =
      trace (mock_world [read_word DFSR, read_register PC, read_word 0x100]) @ rest \<and>
      rest = read_register R0 # rest') \<and>
   filter memory_access (events_since (mock_world [read_word DFSR, read_register PC])
     (mock_world [read_word DFSR, read_register PC, read_word 0x100, read_register R0,
        read_register R1, putchar 0x58, fflush_stdout, write_register PC 0x104,
        target_resume])) =
     events_since (mock_world [read_word DFSR, read_register PC])
       (mock_world [read_word DFSR, read_register PC, read_word 0x100]) \<and>
   (\<exists>k1 k2 rest.
      trace (mock_world [read_word DFSR, read_register PC, read_word 0x100, read_register R0,
        read_register R1, putchar 0x58, fflush_stdout, write_register PC 0x104,
        target_resume]) =
      trace (mock_world []) @ replicate k1 (read_word DFSR) @ replicate k2 (read_register PC) @
        replicate 1 (read_word 0x100) @ rest)"
proof -
  have a: "((0x102 :: word_t) AND NOT 3) = 0x100" by simp
  have h1: "CheckRetry (call (mocked_target 3) (read_word DFSR)) 100 (mock_world []) =
      (success, 0x2, mock_world [read_word DFSR])"
    by (simp add: mocked_CheckRetry mocked_values)
  have h2: "(0x2 :: word_t) AND DFSR_reason_mask = DFSR_BKPT"
    by (simp add: DFSR_reason_mask_def DFSR_BKPT_def)
  have h3: "CheckRetry (call (mocked_target 3) (read_register PC)) 100
      (mock_world [read_word DFSR]) =
      (success, 0x102, mock_world [read_word DFSR, read_register PC])"
    by (simp add: mocked_CheckRetry mocked_values)
  have h4: "CheckRetry (call (mocked_target 3) (read_word (0x102 AND NOT 3))) 100
      (mock_world [read_word DFSR, read_register PC]) =
      (success, 0xBEAB0000, mock_world [read_word DFSR, read_register PC, read_word 0x100])"
    by (simp only: a) (simp add: mocked_CheckRetry mocked_values)
  have h5: "handle_halt (mocked_target 3) (mock_world []) =
      (success,
       mock_world [read_word DFSR, read_register PC, read_word 0x100, read_register R0,
        read_register R1, putchar 0x58, fflush_stdout, write_register PC 0x104,
        target_resume])"
    using mocked_serviced [of "[]"] by simp
  have h6: "instr_halfword 0x102 0xBEAB0000 = 0xBEAB"
    by (simp add: instr_halfword_def)
  have h7: "fst (call (mocked_target 3) (read_word (0x102 AND NOT 3))
      (mock_world [read_word DFSR, read_register PC])) \<noteq> try_again"
    by (simp add: mocked_call)
  note T = handle_halt_instruction_fetch [OF h1 h2 h3 h4 h5]
  from T [THEN conjunct2, THEN conjunct2, THEN conjunct2, THEN conjunct1, THEN mp, OF h7]
  have c1: "trace (mock_world [read_word DFSR, read_register PC, read_word 0x100]) =
     trace (mock_world [read_word DFSR, read_register PC]) @ [read_word 0x100]"
    by (simp only: a)
  from T [THEN conjunct2, THEN conjunct2, THEN conjunct2, THEN conjunct2, THEN conjunct1] h6
  have c2: "\<exists>rest rest'.
      trace (mock_world [read_word DFSR, read_register PC, read_word 0x100, read_register R0,
        read_register R1, putchar 0x58, fflush_stdout, write_register PC 0x104,
        target_resume]) =
      trace (mock_world [read_word DFSR, read_register PC, read_word 0x100]) @ rest \<and>
      rest = read_register R0 # rest'"
    by (simp add: mock_world_def)
  from T [THEN conjunct2, THEN conjunct2, THEN conjunct2, THEN conjunct2, THEN conjunct2,
      THEN conjunct1]
  have c3: "filter memory_access (events_since (mock_world [read_word DFSR, read_register PC])
     (mock_world [read_word DFSR, read_register PC, read_word 0x100, read_register R0,
        read_register R1, putchar 0x58, fflush_stdout, write_register PC 0x104,
        target_resume])) =
     events_since (mock_world [read_word DFSR, read_register PC])
       (mock_world [read_word DFSR, read_register PC, read_word 0x100])" .
  from T [THEN conjunct2, THEN conjunct2, THEN conjunct2, THEN conjunct2, THEN conjunct2,
      THEN conjunct2, THEN conjunct2]
  obtain k1 k2 k rest where
    k: "fst (call (mocked_target 3) (read_word (0x102 AND NOT 3))
          (mock_world [read_word DFSR, read_register PC])) \<noteq> try_again \<longrightarrow> k = 1"
    and t: "trace (mock_world [read_word DFSR, read_register PC, read_word 0x100,
        read_register R0, read_register R1, putchar 0x58, fflush_stdout,
        write_register PC 0x104, target_resume]) =
      trace (mock_world []) @ replicate k1 (read_word DFSR) @ replicate k2 (read_register PC) @
        replicate k (read_word (0x102 AND NOT 3)) @ rest"
    by blast
  from k h7 have "k = 1" by blast
  with t have c4: "\<exists>k1 k2 rest.
      trace (mock_world [read_word DFSR, read_register PC, read_word 0x100, read_register R0,
        read_register R1, putchar 0x58, fflush_stdout, write_register PC 0x104,
        target_resume]) =
      trace (mock_world []) @ replicate k1 (read_word DFSR) @ replicate k2 (read_register PC) @
        replicate 1 (read_word 0x100) @ rest"
    by (simp only: a) blast
  from c1 c2 c3 c4 show ?thesis by blast
qed

section \<open>The write-back of the PC\<close>

text \<open>
  C7. Whatever \<open>handle_halt\<close> writes to a register, it writes to the PC, and the value is
  \<open>pc + 2\<close>, where \<open>pc\<close> is the value that its own read of the PC delivered before (after a
  successful read of DFSR). So an even PC is written back even, and the PC is never advanced
  by 1.
\<close>

theorem handle_halt_pc_write:
  assumes hh: "handle_halt target w = (e, w')"
    and s1: "CheckRetry (call target (read_word DFSR)) 100 w = (e1, dfsr, w1)"
    and s2: "CheckRetry (call target (read_register PC)) 100 w1 = (e2, pc, w2)"
    and wr: "write_register r v \<in> set (events_since w w')"
  shows "r = PC \<and> v = pc + 2 \<and> e1 = success \<and> e2 = success \<and>
         write_register r v \<in> set (events_since w2 w') \<and>
         (even pc \<longrightarrow> even v) \<and> v \<noteq> pc + 1"
proof -
  have "r = PC \<and> v = pc + 2 \<and> e1 = success \<and> e2 = success \<and>
         write_register r v \<in> set (events_since w2 w')"
    using assms
    apply (simp add: handle_halt_def write_char_def events_since_def split: prod.splits if_splits)
    apply (auto dest!: CheckRetry_call_trace100 call_trace simp: emit_trace)
    done
  then show ?thesis by auto
qed

theorem handle_halt_pc_write_witness:
  "(0x104 :: word_t) = 0x102 + 2 \<and> even (0x104 :: word_t) \<and>
   write_register PC 0x104 \<in> set (events_since (mock_world [read_word DFSR, read_register PC])
     (mock_world [read_word DFSR, read_register PC, read_word 0x100, read_register R0,
        read_register R1, putchar 0x58, fflush_stdout, write_register PC 0x104,
        target_resume]))"
proof -
  have h1: "handle_halt (mocked_target 3) (mock_world []) =
      (success,
       mock_world [read_word DFSR, read_register PC, read_word 0x100, read_register R0,
        read_register R1, putchar 0x58, fflush_stdout, write_register PC 0x104,
        target_resume])"
    using mocked_serviced [of "[]"] by simp
  have h2: "CheckRetry (call (mocked_target 3) (read_word DFSR)) 100 (mock_world []) =
      (success, 0x2, mock_world [read_word DFSR])"
    by (simp add: mocked_CheckRetry mocked_values)
  have h3: "CheckRetry (call (mocked_target 3) (read_register PC)) 100
      (mock_world [read_word DFSR]) =
      (success, 0x102, mock_world [read_word DFSR, read_register PC])"
    by (simp add: mocked_CheckRetry mocked_values)
  have h4: "write_register PC 0x104 \<in> set (events_since (mock_world [])
      (mock_world [read_word DFSR, read_register PC, read_word 0x100, read_register R0,
        read_register R1, putchar 0x58, fflush_stdout, write_register PC 0x104,
        target_resume]))"
    using mocked_events_since [of "[]"] by simp
  from handle_halt_pc_write [OF h1 h2 h3 h4] show ?thesis
    by simp
qed

section \<open>Bounded retries\<close>

lemma handle_halt_length_aux:
  "handle_halt target w = (e, w') \<Longrightarrow> length (trace w') \<le> length (trace w) + 603"
  apply (simp add: handle_halt_def write_char_def split: prod.splits if_splits)
  apply (auto dest!: CheckRetry_call_length call_length simp: emit_trace)
  done

lemma handle_halt_length:
  "length (events_since w (snd (handle_halt target w))) \<le> 603"
  using handle_halt_length_aux [of target w "fst (handle_halt target w)" "snd (handle_halt target w)"]
  by (simp add: events_since_def)

lemma host_main_iteration_length:
  "length (events_since w (snd (host_main_iteration target w))) \<le> 703"
proof -
  obtain e dhcsr w1 where p: "CheckRetry (call target (read_word DHCSR)) 100 w = (e, dhcsr, w1)"
    by (cases "CheckRetry (call target (read_word DHCSR)) 100 w") auto
  then obtain k where k: "k \<le> 100" "trace w1 = trace w @ replicate k (read_word DHCSR)"
    by (rule CheckRetry_call_100)
  have h: "length (events_since w1 (snd (handle_halt target w1))) \<le> 603"
    by (rule handle_halt_length)
  show ?thesis
    using p k h
    by (auto simp: host_main_iteration_def events_since_def split: prod.splits)
qed

lemma after_attempts_trace: "trace (after_attempts target c j w) = trace w @ replicate j c"
proof (induction j arbitrary: w)
  case 0
  show ?case by simp
next
  case (Suc j)
  obtain e v w1 where c: "call target c w = (e, v, w1)"
    by (cases "call target c w") auto
  with Suc [of w1] show ?case
    by (simp add: call_trace replicate_app_Cons_same)
qed

lemma retried_trace:
  assumes "retried target c n w k r"
  shows "trace (snd (snd r)) = trace w @ replicate k c"
proof -
  from assms have k: "1 \<le> k" and r: "r = call target c (after_attempts target c (k - 1) w)"
    unfolding retried_def by blast+
  obtain e v w' where c: "call target c (after_attempts target c (k - 1) w) = (e, v, w')"
    by (cases "call target c (after_attempts target c (k - 1) w)") auto
  from call_trace [OF c] have "trace w' = trace w @ replicate (k - 1) c @ [c]"
    by (simp add: after_attempts_trace)
  also have "replicate (k - 1) c @ [c] = replicate k c"
    using k by (cases k) (simp_all add: replicate_append_same)
  finally show ?thesis using r c by simp
qed

lemma retried_first:
  assumes "fst (call target c w) = try_again" and "retried target c n (snd (snd (call target c w))) k r"
  shows "retried target c (Suc n) w (Suc k) r"
proof -
  from assms(2) have k: "1 \<le> k" "k \<le> n"
    and a: "list_all (\<lambda>j. fst (call target c
        (after_attempts target c j (snd (snd (call target c w))))) = try_again) [0..<k - 1]"
    and r: "r = call target c (after_attempts target c (k - 1) (snd (snd (call target c w))))"
    and t: "fst r = try_again \<longrightarrow> k = n"
    unfolding retried_def by blast+
  from k obtain k' where k': "k = Suc k'" by (cases k) auto
  have "list_all (\<lambda>j. fst (call target c (after_attempts target c j w)) = try_again) [0..<k]"
    unfolding list_all_iff
  proof
    fix j assume "j \<in> set [0..<k]"
    then have j: "j < k" by simp
    show "fst (call target c (after_attempts target c j w)) = try_again"
    proof (cases j)
      case 0
      with assms(1) show ?thesis by simp
    next
      case (Suc i)
      with j k' have "i \<in> set [0..<k - 1]" by simp
      with a Suc show ?thesis by (simp add: list_all_iff)
    qed
  qed
  with k r t k' show ?thesis
    by (simp add: retried_def)
qed

lemma CheckRetry_retried:
  "1 \<le> n \<Longrightarrow> \<exists>k. retried target c n w k (CheckRetry (call target c) n w)"
proof (induction n arbitrary: w)
  case 0
  then show ?case by simp
next
  case (Suc n)
  obtain e v w1 where c: "call target c w = (e, v, w1)"
    by (cases "call target c w") auto
  show ?case
  proof (cases "e = try_again \<and> 1 < Suc n")
    case True
    then have n: "1 \<le> n" by simp
    from True c have eq: "CheckRetry (call target c) (Suc n) w = CheckRetry (call target c) n w1"
      by (subst CheckRetry.simps) simp
    from Suc.IH [OF n, of w1] obtain k where
      "retried target c n w1 k (CheckRetry (call target c) n w1)" ..
    with True c have "retried target c (Suc n) w (Suc k) (CheckRetry (call target c) n w1)"
      using retried_first [of target c w n k] by simp
    with eq show ?thesis by auto
  next
    case False
    with c have eq: "CheckRetry (call target c) (Suc n) w = (e, v, w1)"
      by (subst CheckRetry.simps) auto
    from False have "e = try_again \<longrightarrow> n = 0" by auto
    with c have "retried target c (Suc n) w 1 (e, v, w1)"
      by (simp add: retried_def)
    with eq show ?thesis by auto
  qed
qed

lemma retried_CheckRetry:
  "retried target c n w k r \<Longrightarrow> CheckRetry (call target c) n w = r"
proof (induction k arbitrary: n w)
  case 0
  then show ?case by (simp add: retried_def)
next
  case step: (Suc k)
  obtain e v w1 where c: "call target c w = (e, v, w1)"
    by (cases "call target c w") auto
  show ?case
  proof (cases k)
    case 0
    with step.prems c have r: "r = (e, v, w1)" and t: "e = try_again \<longrightarrow> n = 1"
      by (auto simp: retried_def)
    from c t have "CheckRetry (call target c) n w = (e, v, w1)"
      by (subst CheckRetry.simps) auto
    with r show ?thesis by simp
  next
    case k1: (Suc k')
    from step.prems have kn: "Suc k \<le> n"
      and a: "list_all (\<lambda>j. fst (call target c (after_attempts target c j w)) = try_again)
          [0..<k]"
      and r: "r = call target c (after_attempts target c k w)"
      and t: "fst r = try_again \<longrightarrow> Suc k = n"
      unfolding retried_def by auto
    have all: "fst (call target c (after_attempts target c j w)) = try_again" if "j < k" for j
      using a that by (simp add: list_all_iff)
    from all [of 0] k1 have first: "fst (call target c w) = try_again" by simp
    from kn obtain m where m: "n = Suc m" by (cases n) auto
    with kn k1 have m1: "1 \<le> m" "k \<le> m" "1 \<le> k" by simp_all
    have a': "list_all (\<lambda>j. fst (call target c (after_attempts target c j w1)) = try_again)
        [0..<k - 1]"
      unfolding list_all_iff
    proof
      fix j assume "j \<in> set [0..<k - 1]"
      then have "Suc j < k" by simp
      from all [OF this] c show "fst (call target c (after_attempts target c j w1)) = try_again"
        by simp
    qed
    from r c k1 have r': "r = call target c (after_attempts target c (k - 1) w1)"
      by simp
    from t m have t': "fst r = try_again \<longrightarrow> k = m" by simp
    from m1 a' r' t' have "retried target c m w1 k r"
      unfolding retried_def by blast
    from step.IH [OF this] have "CheckRetry (call target c) m w1 = r" .
    moreover from first c m m1 have
      "CheckRetry (call target c) n w = CheckRetry (call target c) m w1"
      by (subst CheckRetry.simps) simp
    ultimately show ?thesis by simp
  qed
qed

lemma busy_after_attempts:
  "after_attempts busy_target c j (mock_world evs) = mock_world (evs @ replicate j c)"
proof (induction j arbitrary: evs)
  case 0
  show ?case by simp
next
  case (Suc j)
  have "call busy_target c (mock_world evs) = (try_again, 0, mock_world (evs @ [c]))"
    by (simp add: call_def busy_target_def mock_world_def)
  then show ?case
    by (simp add: Suc replicate_app_Cons_same)
qed

lemma busy_retried:
  "retried busy_target c 100 (mock_world evs) 100
     (try_again, 0, mock_world (evs @ replicate 100 c))"
proof -
  have c: "call busy_target c (mock_world xs) = (try_again, 0, mock_world (xs @ [c]))" for xs
    by (simp add: call_def busy_target_def mock_world_def)
  have "replicate (n - 1) c @ [c] = replicate n c" if "0 < n" for n
    using that by (cases n) (simp_all add: replicate_append_same)
  from this [of 100] have "replicate 99 c @ [c] = replicate 100 c" by simp
  then show ?thesis
    unfolding retried_def
    by (simp add: busy_after_attempts c list_all_iff)
qed

lemma mocked_retried:
  "retried (mocked_target op) c 100 (mock_world evs) 1
     (success, fst (snd (mocked_target op c ())), mock_world (evs @ [c]))"
  unfolding retried_def by (simp add: mocked_call)

text \<open>
  C8. The retry helper with bound 100 is a bounded retry in the sense of \<open>retried\<close>: the call
  is attempted \<open>k\<close> times, \<open>1 \<le> k \<le> 100\<close>, these attempts are all it adds to the trace, and a
  transient error comes back only from attempt number 100. \<open>handle_halt\<close> is what six such
  retries with bound 100 make it, in this order: of the DFSR read, the PC read, the read of
  the instruction word, the R0 read, the R1 read and the PC write-back, each error coming
  back at once, followed by a single resume. A pass of the outer loop is one such retry
  of the DHCSR read, followed by \<open>handle_halt\<close> when S_HALT is set. So one \<open>handle_halt\<close> adds
  at most 6 * 100 + 3 events to the trace and one pass of the loop at most 7 * 100 + 3.
\<close>

theorem retry_bound:
  "(\<exists>k. retried target c 100 u k (CheckRetry (call target c) 100 u)) \<and>
   (retried target c 100 u k r \<longrightarrow>
      1 \<le> k \<and> k \<le> 100 \<and> trace (snd (snd r)) = trace u @ replicate k c \<and>
      (fst r = try_again \<longrightarrow> k = 100)) \<and>
   (retried target (read_word DFSR) 100 w k1 (e1, dfsr, w1) \<and>
    retried target (read_register PC) 100 w1 k2 (e2, pc, w2) \<and>
    retried target (read_word (pc AND NOT 3)) 100 w2 k3 (e3, instr_word, w3) \<and>
    retried target (read_register R0) 100 w3 k4 (e4, operation, w4) \<and>
    retried target (read_register R1) 100 w4 k5 (e5, parameter, w5) \<and>
    retried target (write_register PC (pc + 2)) 100
      (emit fflush_stdout (emit (putchar (ucast parameter)) w5)) k7 (e7, x, w7) \<and>
    call target target_resume w7 = (e8, y, w8) \<longrightarrow>
      handle_halt target w =
        (if e1 \<noteq> success then (e1, w1)
         else if dfsr AND DFSR_reason_mask \<noteq> DFSR_BKPT
           then (failure, emit (warning_unexpected_halt dfsr) w1)
         else if e2 \<noteq> success then (e2, w2)
         else if e3 \<noteq> success then (e3, w3)
         else if instr_halfword pc instr_word \<noteq> 0xBEAB
           then (failure,
                 emit (warning_unexpected_breakpoint (instr_halfword pc instr_word) pc) w3)
         else if e4 \<noteq> success then (e4, w4)
         else if e5 \<noteq> success then (e5, w5)
         else if operation \<noteq> 0x3
           then (failure, emit (warning_unsupported_operation operation) w5)
         else if e7 \<noteq> success then (e7, w7)
         else (e8, w8))) \<and>
   (retried target (read_word DHCSR) 100 w0 k0 (e0, dhcsr, w0') \<longrightarrow>
      host_main_iteration target w0 =
        (if e0 \<noteq> success then (Some e0, w0')
         else if dhcsr AND DHCSR_S_HALT = 0 then (None, w0')
         else if fst (handle_halt target w0') \<noteq> success
           then (Some (fst (handle_halt target w0')), snd (handle_halt target w0'))
         else (None, snd (handle_halt target w0')))) \<and>
   length (events_since w (snd (handle_halt target w))) \<le> 603 \<and>
   length (events_since w0 (snd (host_main_iteration target w0))) \<le> 703"
proof -
  have p1: "\<exists>k. retried target c 100 u k (CheckRetry (call target c) 100 u)"
    by (rule CheckRetry_retried) simp
  have p2: "retried target c 100 u k r \<longrightarrow>
      1 \<le> k \<and> k \<le> 100 \<and> trace (snd (snd r)) = trace u @ replicate k c \<and>
      (fst r = try_again \<longrightarrow> k = 100)"
  proof
    assume a: "retried target c 100 u k r"
    then have "1 \<le> k" "k \<le> 100" "fst r = try_again \<longrightarrow> k = 100"
      unfolding retried_def by blast+
    with retried_trace [OF a]
    show "1 \<le> k \<and> k \<le> 100 \<and> trace (snd (snd r)) = trace u @ replicate k c \<and>
        (fst r = try_again \<longrightarrow> k = 100)"
      by blast
  qed
  have p3: "retried target (read_word DFSR) 100 w k1 (e1, dfsr, w1) \<and>
    retried target (read_register PC) 100 w1 k2 (e2, pc, w2) \<and>
    retried target (read_word (pc AND NOT 3)) 100 w2 k3 (e3, instr_word, w3) \<and>
    retried target (read_register R0) 100 w3 k4 (e4, operation, w4) \<and>
    retried target (read_register R1) 100 w4 k5 (e5, parameter, w5) \<and>
    retried target (write_register PC (pc + 2)) 100
      (emit fflush_stdout (emit (putchar (ucast parameter)) w5)) k7 (e7, x, w7) \<and>
    call target target_resume w7 = (e8, y, w8) \<longrightarrow>
      handle_halt target w =
        (if e1 \<noteq> success then (e1, w1)
         else if dfsr AND DFSR_reason_mask \<noteq> DFSR_BKPT
           then (failure, emit (warning_unexpected_halt dfsr) w1)
         else if e2 \<noteq> success then (e2, w2)
         else if e3 \<noteq> success then (e3, w3)
         else if instr_halfword pc instr_word \<noteq> 0xBEAB
           then (failure,
                 emit (warning_unexpected_breakpoint (instr_halfword pc instr_word) pc) w3)
         else if e4 \<noteq> success then (e4, w4)
         else if e5 \<noteq> success then (e5, w5)
         else if operation \<noteq> 0x3
           then (failure, emit (warning_unsupported_operation operation) w5)
         else if e7 \<noteq> success then (e7, w7)
         else (e8, w8))"
  proof
    assume h: "retried target (read_word DFSR) 100 w k1 (e1, dfsr, w1) \<and>
      retried target (read_register PC) 100 w1 k2 (e2, pc, w2) \<and>
      retried target (read_word (pc AND NOT 3)) 100 w2 k3 (e3, instr_word, w3) \<and>
      retried target (read_register R0) 100 w3 k4 (e4, operation, w4) \<and>
      retried target (read_register R1) 100 w4 k5 (e5, parameter, w5) \<and>
      retried target (write_register PC (pc + 2)) 100
        (emit fflush_stdout (emit (putchar (ucast parameter)) w5)) k7 (e7, x, w7) \<and>
      call target target_resume w7 = (e8, y, w8)"
    have s1: "CheckRetry (call target (read_word DFSR)) 100 w = (e1, dfsr, w1)"
      using h by (blast intro: retried_CheckRetry)
    have s2: "CheckRetry (call target (read_register PC)) 100 w1 = (e2, pc, w2)"
      using h by (blast intro: retried_CheckRetry)
    have s3: "CheckRetry (call target (read_word (pc AND NOT 3))) 100 w2 = (e3, instr_word, w3)"
      using h by (blast intro: retried_CheckRetry)
    have s4: "CheckRetry (call target (read_register R0)) 100 w3 = (e4, operation, w4)"
      using h by (blast intro: retried_CheckRetry)
    have s5: "CheckRetry (call target (read_register R1)) 100 w4 = (e5, parameter, w5)"
      using h by (blast intro: retried_CheckRetry)
    have s7: "CheckRetry (call target (write_register PC (pc + 2))) 100
        (emit fflush_stdout (emit (putchar (ucast parameter)) w5)) = (e7, x, w7)"
      using h by (blast intro: retried_CheckRetry)
    have s8: "call target target_resume w7 = (e8, y, w8)"
      using h by blast
    from s1 s2 s3 s4 s5 s7 s8 show "handle_halt target w =
        (if e1 \<noteq> success then (e1, w1)
         else if dfsr AND DFSR_reason_mask \<noteq> DFSR_BKPT
           then (failure, emit (warning_unexpected_halt dfsr) w1)
         else if e2 \<noteq> success then (e2, w2)
         else if e3 \<noteq> success then (e3, w3)
         else if instr_halfword pc instr_word \<noteq> 0xBEAB
           then (failure,
                 emit (warning_unexpected_breakpoint (instr_halfword pc instr_word) pc) w3)
         else if e4 \<noteq> success then (e4, w4)
         else if e5 \<noteq> success then (e5, w5)
         else if operation \<noteq> 0x3
           then (failure, emit (warning_unsupported_operation operation) w5)
         else if e7 \<noteq> success then (e7, w7)
         else (e8, w8))"
      by (simp add: handle_halt_def write_char_def)
  qed
  have p4: "retried target (read_word DHCSR) 100 w0 k0 (e0, dhcsr, w0') \<longrightarrow>
      host_main_iteration target w0 =
        (if e0 \<noteq> success then (Some e0, w0')
         else if dhcsr AND DHCSR_S_HALT = 0 then (None, w0')
         else if fst (handle_halt target w0') \<noteq> success
           then (Some (fst (handle_halt target w0')), snd (handle_halt target w0'))
         else (None, snd (handle_halt target w0')))"
  proof
    assume "retried target (read_word DHCSR) 100 w0 k0 (e0, dhcsr, w0')"
    then have "CheckRetry (call target (read_word DHCSR)) 100 w0 = (e0, dhcsr, w0')"
      by (rule retried_CheckRetry)
    then show "host_main_iteration target w0 =
        (if e0 \<noteq> success then (Some e0, w0')
         else if dhcsr AND DHCSR_S_HALT = 0 then (None, w0')
         else if fst (handle_halt target w0') \<noteq> success
           then (Some (fst (handle_halt target w0')), snd (handle_halt target w0'))
         else (None, snd (handle_halt target w0')))"
      by (simp add: host_main_iteration_def split: prod.splits)
  qed
  have p5: "length (events_since w (snd (handle_halt target w))) \<le> 603"
    by (rule handle_halt_length)
  have p6: "length (events_since w0 (snd (host_main_iteration target w0))) \<le> 703"
    by (rule host_main_iteration_length)
  show ?thesis
    by (intro conjI) (rule p1 p2 p3 p4 p5 p6)+
qed

theorem retry_bound_witness:
  "handle_halt (mocked_target 3) (mock_world []) =
     (success,
      mock_world [read_word DFSR, read_register PC, read_word 0x100, read_register R0,
        read_register R1, putchar 0x58, fflush_stdout, write_register PC 0x104,
        target_resume]) \<and>
   host_main_iteration busy_target (mock_world []) =
     (Some try_again, mock_world (replicate 100 (read_word DHCSR))) \<and>
   trace (mock_world (replicate 100 (read_word DHCSR))) =
     trace (mock_world []) @ replicate 100 (read_word DHCSR)"
proof -
  have a: "((0x102 :: word_t) AND NOT 3) = 0x100" by simp
  have h1: "retried (mocked_target 3) (read_word DFSR) 100 (mock_world []) 1
      (success, 0x2, mock_world [read_word DFSR])"
    using mocked_retried [of 3 "read_word DFSR" "[]"] by (simp add: mocked_values)
  have h2: "retried (mocked_target 3) (read_register PC) 100 (mock_world [read_word DFSR]) 1
      (success, 0x102, mock_world [read_word DFSR, read_register PC])"
    using mocked_retried [of 3 "read_register PC" "[read_word DFSR]"]
    by (simp add: mocked_values)
  have h3: "retried (mocked_target 3) (read_word (0x102 AND NOT 3)) 100
      (mock_world [read_word DFSR, read_register PC]) 1
      (success, 0xBEAB0000, mock_world [read_word DFSR, read_register PC, read_word 0x100])"
    using mocked_retried [of 3 "read_word 0x100" "[read_word DFSR, read_register PC]"]
    by (simp only: a) (simp add: mocked_values)
  have h4: "retried (mocked_target 3) (read_register R0) 100
      (mock_world [read_word DFSR, read_register PC, read_word 0x100]) 1
      (success, 0x3,
       mock_world [read_word DFSR, read_register PC, read_word 0x100, read_register R0])"
    using mocked_retried [of 3 "read_register R0"
        "[read_word DFSR, read_register PC, read_word 0x100]"]
    by (simp add: mocked_values)
  have h5: "retried (mocked_target 3) (read_register R1) 100
      (mock_world [read_word DFSR, read_register PC, read_word 0x100, read_register R0]) 1
      (success, 0x58,
       mock_world [read_word DFSR, read_register PC, read_word 0x100, read_register R0,
         read_register R1])"
    using mocked_retried [of 3 "read_register R1"
        "[read_word DFSR, read_register PC, read_word 0x100, read_register R0]"]
    by (simp add: mocked_values)
  have h7: "retried (mocked_target 3) (write_register PC (0x102 + 2)) 100
      (emit fflush_stdout (emit (putchar (ucast (0x58 :: word_t)))
        (mock_world [read_word DFSR, read_register PC, read_word 0x100, read_register R0,
           read_register R1]))) 1
      (success, 0,
       mock_world [read_word DFSR, read_register PC, read_word 0x100, read_register R0,
         read_register R1, putchar 0x58, fflush_stdout, write_register PC 0x104])"
    using mocked_retried [of 3 "write_register PC 0x104"
        "[read_word DFSR, read_register PC, read_word 0x100, read_register R0,
          read_register R1, putchar 0x58, fflush_stdout]"]
    by (simp add: mocked_emit mocked_target_def)
  have h8: "call (mocked_target 3) target_resume
      (mock_world [read_word DFSR, read_register PC, read_word 0x100, read_register R0,
         read_register R1, putchar 0x58, fflush_stdout, write_register PC 0x104]) =
      (success, 0,
       mock_world [read_word DFSR, read_register PC, read_word 0x100, read_register R0,
         read_register R1, putchar 0x58, fflush_stdout, write_register PC 0x104,
         target_resume])"
    by (simp add: mocked_call mocked_target_def)
  have i: "instr_halfword 0x102 0xBEAB0000 = 0xBEAB"
    by (simp add: instr_halfword_def)
  have b: "(0x2 :: word_t) AND DFSR_reason_mask = DFSR_BKPT"
    by (simp add: DFSR_reason_mask_def DFSR_BKPT_def)
  from retry_bound [THEN conjunct2, THEN conjunct2, THEN conjunct1, THEN mp,
      OF conjI [OF h1 conjI [OF h2 conjI [OF h3 conjI [OF h4 conjI [OF h5 conjI [OF h7 h8]]]]]]]
  have c1: "handle_halt (mocked_target 3) (mock_world []) =
     (success,
      mock_world [read_word DFSR, read_register PC, read_word 0x100, read_register R0,
        read_register R1, putchar 0x58, fflush_stdout, write_register PC 0x104,
        target_resume])"
    by (simp add: i b)
  from retry_bound [THEN conjunct2, THEN conjunct2, THEN conjunct2, THEN conjunct1, THEN mp,
      OF busy_retried [of "read_word DHCSR" "[]"]]
  have c2: "host_main_iteration busy_target (mock_world []) =
     (Some try_again, mock_world (replicate 100 (read_word DHCSR)))"
    by simp
  from retry_bound [THEN conjunct2, THEN conjunct1, THEN mp,
      OF busy_retried [of "read_word DHCSR" "[]"]]
  have c3: "trace (mock_world (replicate 100 (read_word DHCSR))) =
     trace (mock_world []) @ replicate 100 (read_word DHCSR)"
    by simp
  from c1 c2 c3 show ?thesis by simp
qed

section \<open>The polling loop\<close>

text \<open>
  C5. One pass of the loop of \<open>host_main\<close> begins with the retried read of DHCSR and
  calls \<open>handle_halt\<close> exactly when that read succeeded with the S_HALT bit set. When the
  read succeeded with S_HALT clear, the pass does nothing but these reads of DHCSR and the
  loop goes round to read DHCSR again; when the read failed, the pass returns its error.
  So a pass in which anything other than a read of DHCSR happens is a pass that saw S_HALT
  set.
\<close>

theorem host_main_iteration_polls:
  assumes poll: "CheckRetry (call target (read_word DHCSR)) 100 w = (e, dhcsr, w1)"
    and it: "host_main_iteration target w = (r, w')"
  shows "(e = success \<and> dhcsr AND DHCSR_S_HALT \<noteq> 0 \<longrightarrow>
           (\<exists>e'. handle_halt target w1 = (e', w') \<and> r = (if e' \<noteq> success then Some e' else None))) \<and>
         (e = success \<and> dhcsr AND DHCSR_S_HALT = 0 \<longrightarrow>
            r = None \<and> w' = w1 \<and> host_main_loop target w = host_main_loop target w1) \<and>
         (e \<noteq> success \<longrightarrow> r = Some e \<and> w' = w1) \<and>
         (\<exists>k. 1 \<le> k \<and> k \<le> 100 \<and> events_since w w1 = replicate k (read_word DHCSR)) \<and>
         ((\<exists>ev \<in> set (events_since w w'). ev \<noteq> read_word DHCSR) \<longrightarrow>
            e = success \<and> dhcsr AND DHCSR_S_HALT \<noteq> 0)"
proof (intro conjI impI)
  assume "e = success \<and> dhcsr AND DHCSR_S_HALT \<noteq> 0"
  with poll it show "\<exists>e'. handle_halt target w1 = (e', w') \<and> r = (if e' \<noteq> success then Some e' else None)"
    by (auto simp: host_main_iteration_def split: prod.splits if_splits)
next
  assume a: "e = success \<and> dhcsr AND DHCSR_S_HALT = 0"
  with poll it show "r = None" "w' = w1"
    by (auto simp: host_main_iteration_def)
  with it show "host_main_loop target w = host_main_loop target w1"
    by (subst host_main_loop.simps) simp
next
  assume "e \<noteq> success"
  with poll it show "r = Some e" "w' = w1"
    by (auto simp: host_main_iteration_def)
next
  show "\<exists>k. 1 \<le> k \<and> k \<le> 100 \<and> events_since w w1 = replicate k (read_word DHCSR)"
    using CheckRetry_call_events [OF poll] by blast
next
  assume ex: "\<exists>ev \<in> set (events_since w w'). ev \<noteq> read_word DHCSR"
  from CheckRetry_call_events [OF poll] obtain k where
    k: "events_since w w1 = replicate k (read_word DHCSR)" by blast
  have "e = success \<and> dhcsr AND DHCSR_S_HALT \<noteq> 0"
  proof (rule ccontr)
    assume "\<not> (e = success \<and> dhcsr AND DHCSR_S_HALT \<noteq> 0)"
    with poll it have "w' = w1"
      by (auto simp: host_main_iteration_def split: if_splits)
    with ex k show False by auto
  qed
  then show "e = success" "dhcsr AND DHCSR_S_HALT \<noteq> 0"
    by simp_all
qed

theorem host_main_iteration_polls_witness:
  "(\<exists>e'. handle_halt (mocked_target 3) (mock_world [read_word DHCSR]) =
      (e', mock_world [read_word DHCSR, read_word DFSR, read_register PC, read_word 0x100,
        read_register R0, read_register R1, putchar 0x58, fflush_stdout,
        write_register PC 0x104, target_resume]) \<and>
      (None :: Error option) = (if e' \<noteq> success then Some e' else None)) \<and>
   (\<exists>k. 1 \<le> k \<and> k \<le> 100 \<and>
      events_since (mock_world []) (mock_world [read_word DHCSR]) =
        replicate k (read_word DHCSR))"
proof -
  have h1: "CheckRetry (call (mocked_target 3) (read_word DHCSR)) 100 (mock_world []) =
      (success, 0x30003, mock_world [read_word DHCSR])"
    by (simp add: mocked_CheckRetry mocked_values)
  have h2: "host_main_iteration (mocked_target 3) (mock_world []) =
      (None, mock_world [read_word DHCSR, read_word DFSR, read_register PC, read_word 0x100,
        read_register R0, read_register R1, putchar 0x58, fflush_stdout,
        write_register PC 0x104, target_resume])"
    by (simp add: host_main_iteration_def mocked_CheckRetry mocked_values mocked_serviced
        DHCSR_S_HALT_def)
  have h3: "(0x30003 :: word_t) AND DHCSR_S_HALT \<noteq> 0"
    by (simp add: DHCSR_S_HALT_def)
  from host_main_iteration_polls [OF h1 h2] h3 show ?thesis
    by simp
qed

lemma host_main_iteration_exit:
  assumes "host_main_iteration target w = (Some e, w')"
  shows "e \<noteq> success \<and>
    ((\<exists>dhcsr. CheckRetry (call target (read_word DHCSR)) 100 w = (e, dhcsr, w')) \<or>
     (\<exists>dhcsr w1. CheckRetry (call target (read_word DHCSR)) 100 w = (success, dhcsr, w1) \<and>
        dhcsr AND DHCSR_S_HALT \<noteq> 0 \<and> handle_halt target w1 = (e, w')))"
  using assms by (auto simp: host_main_iteration_def split: prod.splits if_splits)


lemma host_main_loop_exit:
  assumes "host_main_loop target w = Some y"
  shows "\<exists>w0. host_main_iteration target w0 = (Some (fst y), snd y)"
proof (rule host_main_loop.raw_induct
    [where P = "\<lambda>target w y. \<exists>w0. host_main_iteration target w0 = (Some (fst y), snd y)",
      OF _ assms])
  fix loop :: "'a link \<Rightarrow> 'a world \<Rightarrow> (Error \<times> 'a world) option"
    and target w y
  assume IH: "\<And>target w y. loop target w = Some y \<Longrightarrow>
      \<exists>w0. host_main_iteration target w0 = (Some (fst y), snd y)"
    and step: "(case host_main_iteration target w of
        (None, w') \<Rightarrow> loop target w' | (Some e, w') \<Rightarrow> Some (e, w')) = Some y"
  show "\<exists>w0. host_main_iteration target w0 = (Some (fst y), snd y)"
  proof (cases "host_main_iteration target w")
    case (Pair r w')
    show ?thesis
    proof (cases r)
      case None
      with Pair step have "loop target w' = Some y" by simp
      then show ?thesis by (rule IH)
    next
      case (Some e)
      with Pair step have "y = (e, w')" by simp
      with Pair Some show ?thesis by auto
    qed
  qed
qed

text \<open>
  C6. \<open>host_main\<close> never returns success. Its polling loop is left only with an error,
  which is either the error of a retried read of DHCSR or the error that \<open>handle_halt\<close>
  returned after a read of DHCSR with S_HALT set: no semihosting operation ends the loop
  cleanly.
\<close>

theorem host_main_never_success:
  "(host_main swd w = Some (e, w') \<longrightarrow> e \<noteq> success) \<and>
   (host_main_loop swd w = Some (e, w') \<longrightarrow>
      e \<noteq> success \<and>
      (\<exists>w0 dhcsr w1.
         CheckRetry (call swd (read_word DHCSR)) 100 w0 = (e, dhcsr, w') \<or>
         CheckRetry (call swd (read_word DHCSR)) 100 w0 = (success, dhcsr, w1) \<and>
           dhcsr AND DHCSR_S_HALT \<noteq> 0 \<and> handle_halt swd w1 = (e, w')))"
proof -
  have loop: "e \<noteq> success \<and>
      (\<exists>w0 dhcsr w1.
         CheckRetry (call swd (read_word DHCSR)) 100 w0 = (e, dhcsr, w') \<or>
         CheckRetry (call swd (read_word DHCSR)) 100 w0 = (success, dhcsr, w1) \<and>
           dhcsr AND DHCSR_S_HALT \<noteq> 0 \<and> handle_halt swd w1 = (e, w'))"
    if "host_main_loop swd v = Some (e, w')" for v
  proof -
    from host_main_loop_exit [OF that] obtain w0 where
      "host_main_iteration swd w0 = (Some e, w')" by auto
    from host_main_iteration_exit [OF this] show ?thesis by blast
  qed
  have "e \<noteq> success" if "host_main swd w = Some (e, w')"
    using that loop
    by (auto simp: host_main_def split: prod.splits if_splits)
  with loop show ?thesis by blast
qed

theorem host_main_never_success_witness:
  "host_main (mocked_target 4) (mock_world []) =
     Some (failure,
       mock_world [swd_initialize, swd_enter_reset, usleep 10000, dap_reset_state,
         target_initialize, target_reset_halt_state, swd_leave_reset, read_word DHCSR,
         read_word DFSR, read_register PC, read_word 0x100, read_register R0,
         read_register R1, warning_unsupported_operation 4]) \<and>
   failure \<noteq> success"
proof -
  have it: "host_main_iteration (mocked_target 4) (mock_world evs) =
      (Some failure,
       mock_world (evs @ [read_word DHCSR, read_word DFSR, read_register PC, read_word 0x100,
         read_register R0, read_register R1, warning_unsupported_operation 4]))" for evs
    by (simp add: host_main_iteration_def mocked_CheckRetry mocked_values mocked_unsupported
        DHCSR_S_HALT_def)
  have loop: "host_main_loop (mocked_target 4) (mock_world evs) =
      Some (failure,
       mock_world (evs @ [read_word DHCSR, read_word DFSR, read_register PC, read_word 0x100,
         read_register R0, read_register R1, warning_unsupported_operation 4]))" for evs
    by (subst host_main_loop.simps) (simp add: it)
  have h: "host_main (mocked_target 4) (mock_world []) =
     Some (failure,
       mock_world [swd_initialize, swd_enter_reset, usleep 10000, dap_reset_state,
         target_initialize, target_reset_halt_state, swd_leave_reset, read_word DHCSR,
         read_word DFSR, read_register PC, read_word 0x100, read_register R0,
         read_register R1, warning_unsupported_operation 4])"
    by (simp add: host_main_def mocked_call mocked_emit loop)
  from host_main_never_success [of "mocked_target 4" "mock_world []" failure
      "mock_world [swd_initialize, swd_enter_reset, usleep 10000, dap_reset_state,
         target_initialize, target_reset_halt_state, swd_leave_reset, read_word DHCSR,
         read_word DFSR, read_register PC, read_word 0x100, read_register R0,
         read_register R1, warning_unsupported_operation 4]"] h
  show ?thesis by simp
qed

section \<open>The dump loops\<close>

lemma top_dvd: "4 dvd unat (n * 4 :: word_t)"
proof -
  have "unat (n * 4) = (unat n * 4) mod 2 ^ 32"
    by (simp add: unat_word_ariths)
  moreover have "(4::nat) dvd 2 ^ 32" by simp
  ultimately show ?thesis
    by (simp add: dvd_mod)
qed

lemma word_address_less:
  assumes "k \<le> unat (n * 4 :: word_t) div 4"
  shows "word_address k < n * 4 \<longleftrightarrow> k < unat (n * 4) div 4"
proof -
  have b: "unat (n * 4) < 2 ^ 32"
    using unsigned_less [of "n * 4"] by simp
  from top_dvd [of n] have m: "4 * (unat (n * 4) div 4) = unat (n * 4)"
    by simp
  with assms b have "4 * k < 2 ^ 32" by linarith
  then have "unat (word_address k) = 4 * k"
    unfolding word_address_def unat_of_nat by simp
  with m show ?thesis
    by (simp add: word_less_nat_alt) linarith
qed

lemma unat_word_address: "k < 2 ^ 30 \<Longrightarrow> unat (word_address k) = 4 * k"
  unfolding word_address_def unat_of_nat by simp

lemma word_address_Suc: "word_address k + 4 = word_address (Suc k)"
  by (simp add: word_address_def)

lemma dump_flash_loop_run:
  "k \<le> unat (n * 4) div 4 \<Longrightarrow>
   dump_flash_loop target n (word_address k) w =
     Some (read_words_in_order target (map word_address [k..<unat (n * 4) div 4]) w)"
proof (induction "unat (n * 4) div 4 - k" arbitrary: k w)
  case 0
  then have "k = unat (n * 4) div 4" by simp
  then show ?case
    using word_address_less [of k n]
    by (subst dump_flash_loop.simps) simp
next
  case (Suc d)
  then have lt: "k < unat (n * 4) div 4" by simp
  then have c: "word_address k < n * 4"
    using word_address_less [of k n] by simp
  from lt have u: "[k..<unat (n * 4) div 4] = k # [Suc k..<unat (n * 4) div 4]"
    by (simp add: upt_conv_Cons)
  from Suc lt have IH: "dump_flash_loop target n (word_address (Suc k)) w' =
     Some (read_words_in_order target (map word_address [Suc k..<unat (n * 4) div 4]) w')" for w'
    by simp
  show ?case
    by (subst dump_flash_loop.simps)
      (simp add: c u word_address_Suc IH split: prod.splits)
qed

lemma dump_flash_rptr_loop_run:
  "k \<le> unat (n * 4) div 4 \<Longrightarrow>
   dump_flash_rptr_loop target (rptr_const (n * 4)) (rptr_const (word_address k)) w =
     Some (read_words_in_order target (map word_address [k..<unat (n * 4) div 4]) w)"
proof (induction "unat (n * 4) div 4 - k" arbitrary: k w)
  case 0
  then have "k = unat (n * 4) div 4" by simp
  then show ?case
    using word_address_less [of k n]
    by (subst dump_flash_rptr_loop.simps) (simp add: rptr_less_def)
next
  case (Suc d)
  then have lt: "k < unat (n * 4) div 4" by simp
  then have c: "word_address k < n * 4"
    using word_address_less [of k n] by simp
  from lt have u: "[k..<unat (n * 4) div 4] = k # [Suc k..<unat (n * 4) div 4]"
    by (simp add: upt_conv_Cons)
  from Suc lt have IH: "dump_flash_rptr_loop target (rptr_const (n * 4))
       (rptr_const (word_address (Suc k))) w' =
     Some (read_words_in_order target (map word_address [Suc k..<unat (n * 4) div 4]) w')" for w'
    by simp
  show ?case
    by (subst dump_flash_rptr_loop.simps)
      (simp add: c u rptr_less_def rptr_incr_def word_address_Suc IH split: prod.splits)
qed

lemma dump_flash_total:
  "dump_flash target n w =
     Some (read_words_in_order target (map word_address [0..<unat (n * 4) div 4])
       (emit (notice_first_words n) w))"
  using dump_flash_loop_run [of 0 n target "emit (notice_first_words n) w"]
  by (simp add: dump_flash_def word_address_def)

lemma dump_flash_rptr_total:
  "dump_flash_rptr target n w =
     Some (read_words_in_order target (map word_address [0..<unat (n * 4) div 4])
       (emit (notice_first_words n) w))"
  using dump_flash_rptr_loop_run [of 0 n target "emit (notice_first_words n) w"]
  by (simp add: dump_flash_rptr_def word_address_def)

lemma words_wrap: "unat (n * 4 :: word_t) div 4 = unat n mod 2 ^ 30"
proof -
  have "unat (n * 4) = (unat n * 4) mod 2 ^ 32"
    by (simp add: unat_word_ariths)
  also have "(unat n * 4) mod 2 ^ 32 = 4 * (unat n mod 2 ^ 30)"
    using mult_mod_right [of 4 "unat n" "2 ^ 30"] by (simp add: mult.commute)
  finally show ?thesis by simp
qed

lemma dump_flash_exact:
  "dump_flash target n w =
     Some (read_words_in_order target (map word_address [0..<unat n mod 2 ^ 30])
       (emit (notice_first_words n) w))"
  using dump_flash_total [of target n w] by (simp only: words_wrap)

lemma dump_flash_rptr_exact:
  "dump_flash_rptr target n w =
     Some (read_words_in_order target (map word_address [0..<unat n mod 2 ^ 30])
       (emit (notice_first_words n) w))"
  using dump_flash_rptr_total [of target n w] by (simp only: words_wrap)

lemma read_words_in_order_run:
  "read_words_in_order target (map word_address [k..<m]) w = (e, w') \<Longrightarrow>
   (e = success \<and>
      (\<exists>vs. length vs = m - k \<and> trace w' = trace w @ dump_events (zip [k..<m] vs))) \<or>
   (e \<noteq> success \<and>
      (\<exists>j vs wj v. k \<le> j \<and> j < m \<and> length vs = j - k \<and>
         trace wj = trace w @ dump_events (zip [k..<j] vs) \<and>
         call target (read_word (word_address j)) wj = (e, v, w')))"
proof (induction "m - k" arbitrary: k w)
  case 0
  then show ?case by (simp add: dump_events_def)
next
  case (Suc d)
  then have lt: "k < m" by simp
  then have u: "[k..<m] = k # [Suc k..<m]" by (simp add: upt_conv_Cons)
  obtain e1 buffer w1 where c: "call target (read_word (word_address k)) w = (e1, buffer, w1)"
    by (cases "call target (read_word (word_address k)) w") auto
  then have t1: "trace w1 = trace w @ [read_word (word_address k)]"
    by (rule call_trace)
  show ?case
  proof (cases "e1 = success")
    case False
    with Suc.prems c u have "e = e1" "w' = w1" by simp_all
    with False c lt show ?thesis
      by (intro disjI2 conjI exI [of _ k] exI [of _ "[]"] exI [of _ w] exI [of _ buffer])
        (simp_all add: dump_events_def)
  next
    case True
    with Suc.prems c u have r: "read_words_in_order target (map word_address [Suc k..<m])
        (emit (notice_word (word_address k) buffer) w1) = (e, w')"
      by simp
    from Suc.hyps have "d = m - Suc k" by simp
    from Suc.hyps(1) [OF this r] show ?thesis
    proof (elim disjE conjE exE)
      fix vs
      assume "e = success" "length vs = m - Suc k"
        "trace w' = trace (emit (notice_word (word_address k) buffer) w1) @
           dump_events (zip [Suc k..<m] vs)"
      with t1 u lt show ?thesis
        by (intro disjI1 conjI exI [of _ "buffer # vs"])
          (simp_all add: emit_trace dump_events_def)
    next
      fix j vs wj v
      assume "e \<noteq> success" "Suc k \<le> j" "j < m" "length vs = j - Suc k"
        "trace wj = trace (emit (notice_word (word_address k) buffer) w1) @
           dump_events (zip [Suc k..<j] vs)"
        "call target (read_word (word_address j)) wj = (e, v, w')"
      with t1 show ?thesis
        by (intro disjI2 conjI exI [of _ j] exI [of _ "buffer # vs"] exI [of _ wj] exI [of _ v])
          (simp_all add: emit_trace dump_events_def upt_conv_Cons)
    qed
  qed
qed

lemma read_words_in_order_healthy:
  assumes ok: "\<forall>c t. fst (target c t) = success"
    and r: "read_words_in_order target (map word_address [0..<m]) w = (e, w')"
  shows "e = success \<and>
    (\<exists>vs. length vs = m \<and> trace w' = trace w @ dump_events (zip [0..<m] vs))"
proof -
  from read_words_in_order_run [OF r] show ?thesis
  proof (elim disjE conjE exE)
    fix vs assume "e = success" "length vs = m - 0"
      "trace w' = trace w @ dump_events (zip [0..<m] vs)"
    then show ?thesis by auto
  next
    fix j vs wj v
    assume "e \<noteq> success" "call target (read_word (word_address j)) wj = (e, v, w')"
    with call_ok [OF ok, of "read_word (word_address j)" wj] show ?thesis by simp
  qed
qed

lemma calls_in_order_run:
  "calls_in_order target cs w = (e, w') \<Longrightarrow>
   (e = success \<and> trace w' = trace w @ cs) \<or>
   (e \<noteq> success \<and>
      (\<exists>k v u. k < length cs \<and> trace u = trace w @ take k cs \<and>
         call target (cs ! k) u = (e, v, w')))"
proof (induction cs arbitrary: w)
  case Nil
  then show ?case by simp
next
  case (Cons c cs)
  obtain e1 v1 w1 where c: "call target c w = (e1, v1, w1)"
    by (cases "call target c w") auto
  then have t1: "trace w1 = trace w @ [c]" by (rule call_trace)
  show ?case
  proof (cases "e1 = success")
    case False
    with Cons.prems c have "e = e1" "w' = w1" by simp_all
    with False c show ?thesis
      by (intro disjI2 conjI exI [of _ 0] exI [of _ v1] exI [of _ w]) simp_all
  next
    case True
    with Cons.prems c have "calls_in_order target cs w1 = (e, w')" by simp
    from Cons.IH [OF this] show ?thesis
    proof (elim disjE conjE exE)
      assume "e = success" "trace w' = trace w1 @ cs"
      with t1 show ?thesis by simp
    next
      fix k v u
      assume "e \<noteq> success" "k < length cs" "trace u = trace w1 @ take k cs"
        "call target (cs ! k) u = (e, v, w')"
      with t1 show ?thesis
        by (intro disjI2 conjI exI [of _ "Suc k"] exI [of _ v] exI [of _ u]) simp_all
    qed
  qed
qed

lemma run_experiment_exact:
  "run_experiment swd count w =
     (case calls_in_order swd
        [swd_initialize, swd_reset_target 100000, dap_reset_state, target_initialize,
         target_halt, write_word 0x40048000 2] w of
        (e, w6) \<Rightarrow>
          if e \<noteq> success then Some (e, w6) else dump_flash swd (word_of_int count) w6)"
  by (auto simp: run_experiment_def unmap_boot_sector_def dump_flash_exact
      split: prod.splits option.splits)


lemma calls_in_order_healthy:
  assumes ok: "\<forall>c t. fst (target c t) = success"
    and r: "calls_in_order target cs w = (e, w')"
  shows "e = success \<and> trace w' = trace w @ cs"
proof -
  from calls_in_order_run [OF r] show ?thesis
  proof (elim disjE conjE exE)
    assume "e = success" "trace w' = trace w @ cs"
    then show ?thesis by simp
  next
    fix k v u
    assume "e \<noteq> success" "call target (cs ! k) u = (e, v, w')"
    with call_ok [OF ok, of "cs ! k" u] show ?thesis by simp
  qed
qed

lemma dump_flash_healthy:
  assumes ok: "\<forall>c t. fst (target c t) = success" and n: "unat n < 2 ^ 30"
  shows "\<exists>w' vs. dump_flash target n w = Some (success, w') \<and> length vs = unat n \<and>
    trace w' = trace w @ notice_first_words n # dump_events (zip [0..<unat n] vs)"
proof -
  obtain e w' where r: "read_words_in_order target (map word_address [0..<unat n])
      (emit (notice_first_words n) w) = (e, w')"
    by (cases "read_words_in_order target (map word_address [0..<unat n])
      (emit (notice_first_words n) w)") auto
  from read_words_in_order_healthy [OF ok r] obtain vs where
    v: "e = success" "length vs = unat n"
    "trace w' = trace (emit (notice_first_words n) w) @ dump_events (zip [0..<unat n] vs)"
    by blast
  from n r v(1) have "dump_flash target n w = Some (success, w')"
    by (simp add: dump_flash_exact)
  with v show ?thesis
    by (intro exI [of _ w'] exI [of _ vs]) (simp add: emit_trace)
qed

lemma dump_flash_run:
  assumes d: "dump_flash target n w = Some (e, w')"
  shows "(e = success \<and>
      (\<exists>vs. length vs = unat n mod 2 ^ 30 \<and>
         trace w' = trace w @ notice_first_words n #
           dump_events (zip [0..<unat n mod 2 ^ 30] vs))) \<or>
   (e \<noteq> success \<and>
      (\<exists>j vs uj v. j < unat n mod 2 ^ 30 \<and> length vs = j \<and>
         trace uj = trace w @ notice_first_words n # dump_events (zip [0..<j] vs) \<and>
         call target (read_word (word_address j)) uj = (e, v, w')))"
proof -
  from d have r: "read_words_in_order target (map word_address [0..<unat n mod 2 ^ 30])
      (emit (notice_first_words n) w) = (e, w')"
    by (simp add: dump_flash_exact)
  from read_words_in_order_run [OF r] show ?thesis
  proof (elim disjE conjE exE)
    fix vs assume "e = success" "length vs = unat n mod 2 ^ 30 - 0"
      "trace w' = trace (emit (notice_first_words n) w) @
         dump_events (zip [0..<unat n mod 2 ^ 30] vs)"
    then show ?thesis
      by (intro disjI1 conjI exI [of _ vs]) (simp_all add: emit_trace)
  next
    fix j vs wj v
    assume "e \<noteq> success" "0 \<le> j" "j < unat n mod 2 ^ 30" "length vs = j - 0"
      "trace wj = trace (emit (notice_first_words n) w) @ dump_events (zip [0..<j] vs)"
      "call target (read_word (word_address j)) wj = (e, v, w')"
    then show ?thesis
      by (intro disjI2 conjI exI [of _ j] exI [of _ vs] exI [of _ wj] exI [of _ v])
        (simp_all add: emit_trace)
  qed
qed

lemma mocked_dump_2:
  "dump_flash (mocked_target op) 2 (mock_world evs) =
     Some (success,
       mock_world (evs @ [notice_first_words 2, read_word 0, notice_word 0 0, read_word 4,
         notice_word 4 0]))"
proof -
  have u: "[0..<2] = [0, Suc 0]" by (simp add: upt_conv_Cons)
  have v: "fst (snd (mocked_target op (read_word 0) ())) = 0"
    "fst (snd (mocked_target op (read_word 4) ())) = 0"
    by (simp_all add: mocked_target_def DFSR_def DHCSR_def)
  show ?thesis
    by (simp add: dump_flash_total u word_address_def mocked_call mocked_emit v)
qed

lemma mocked_run_experiment_2:
  "run_experiment (mocked_target 3) 2 (mock_world evs) =
     Some (success,
       mock_world (evs @ [swd_initialize, swd_reset_target 100000, dap_reset_state,
         target_initialize, target_halt, write_word 0x40048000 2, notice_first_words 2,
         read_word 0, notice_word 0 0, read_word 4, notice_word 4 0]))"
  by (simp add: run_experiment_def unmap_boot_sector_def mocked_call mocked_dump_2)

lemma mocked_read_words_2:
  "read_words_in_order (mocked_target op) (map word_address [0..<2]) (mock_world evs) =
     (success, mock_world (evs @ [read_word 0, notice_word 0 0, read_word 4, notice_word 4 0]))"
proof -
  have u: "[0..<2] = [0, Suc 0]" by (simp add: upt_conv_Cons)
  have v: "fst (snd (mocked_target op (read_word 0) ())) = 0"
    "fst (snd (mocked_target op (read_word 4) ())) = 0"
    by (simp_all add: mocked_target_def DFSR_def DHCSR_def)
  show ?thesis
    by (simp add: u word_address_def mocked_call mocked_emit v)
qed

lemma mocked_calls_in_order:
  "calls_in_order (mocked_target op) cs (mock_world evs) = (success, mock_world (evs @ cs))"
  by (induction cs arbitrary: evs) (simp_all add: mocked_call)

text \<open>
  C4 (amended). \<open>dump_flash\<close> always returns, and what it does is: print the headline, then
  read the words number 0, ..., \<open>n mod 2 ^ 30 - 1\<close> in this order, each read followed by the
  report of its value, stopping at the first read that fails, whose error it returns. Below
  \<open>2 ^ 30\<close> these are the \<open>n\<close> words at the addresses 0, 4, ..., 4 * (n - 1); from \<open>2 ^ 30\<close>
  on, \<open>n * 4\<close> wraps round in 32 bits and fewer than \<open>n\<close> words are read. On a link whose
  calls all succeed and for \<open>n\<close> below \<open>2 ^ 30\<close>, the dump succeeds after exactly \<open>n\<close> reads and
  \<open>n\<close> reports. \<open>run_experiment\<close> makes the five initialisation calls and the write of 2 to
  0x40048000, in this order and up to the first that fails, and runs \<open>dump_flash\<close> exactly
  when all six have succeeded; on a link whose calls all succeed it returns success, and
  its events are the six calls, the last of them the write of 2 to SYSMEMREMAP, followed by
  the headline and the \<open>n\<close> reads and reports.
\<close>

theorem dump_flash_reads:
  "dump_flash target n w =
     Some (read_words_in_order target (map word_address [0..<unat n mod 2 ^ 30])
       (emit (notice_first_words n) w)) \<and>
   (unat n < 2 ^ 30 \<longrightarrow>
      unat n mod 2 ^ 30 = unat n \<and> (\<forall>k<unat n. unat (word_address k) = 4 * k)) \<and>
   (2 ^ 30 \<le> unat n \<longrightarrow> unat n mod 2 ^ 30 < unat n) \<and>
   (read_words_in_order target (map word_address [0..<m]) u = (e, u') \<longrightarrow>
      (e = success \<and>
         (\<exists>vs. length vs = m \<and> events_since u u' = dump_events (zip [0..<m] vs))) \<or>
      (e \<noteq> success \<and>
         (\<exists>j vs uj v. j < m \<and> length vs = j \<and>
            events_since u uj = dump_events (zip [0..<j] vs) \<and>
            call target (read_word (word_address j)) uj = (e, v, u') \<and>
            events_since u u' = dump_events (zip [0..<j] vs) @ [read_word (word_address j)]))) \<and>
   ((\<forall>c t. fst (target c t) = success) \<and> unat n < 2 ^ 30 \<longrightarrow>
      (\<exists>w' vs. dump_flash target n w = Some (success, w') \<and> length vs = unat n \<and>
         events_since w w' = notice_first_words n # dump_events (zip [0..<unat n] vs))) \<and>
   run_experiment swd count w0 =
     (case calls_in_order swd
        [swd_initialize, swd_reset_target 100000, dap_reset_state, target_initialize,
         target_halt, write_word 0x40048000 2] w0 of
        (e6, w6) \<Rightarrow>
          if e6 \<noteq> success then Some (e6, w6) else dump_flash swd (word_of_int count) w6) \<and>
   (calls_in_order swd cs w0 = (e0, w0') \<longrightarrow>
      (e0 = success \<and> events_since w0 w0' = cs) \<or>
      (e0 \<noteq> success \<and>
         (\<exists>k v u0. k < length cs \<and> events_since w0 u0 = take k cs \<and>
            call swd (cs ! k) u0 = (e0, v, w0') \<and>
            events_since w0 w0' = take (Suc k) cs))) \<and>
   ((\<forall>c t. fst (swd c t) = success) \<and> unat (word_of_int count :: word_t) < 2 ^ 30 \<longrightarrow>
      (\<exists>w' vs. run_experiment swd count w0 = Some (success, w') \<and>
         length vs = unat (word_of_int count :: word_t) \<and>
         events_since w0 w' =
           [swd_initialize, swd_reset_target 100000, dap_reset_state, target_initialize,
            target_halt, write_word 0x40048000 2] @
           notice_first_words (word_of_int count) #
           dump_events (zip [0..<unat (word_of_int count :: word_t)] vs)))"
proof -
  have p1: "dump_flash target n w =
     Some (read_words_in_order target (map word_address [0..<unat n mod 2 ^ 30])
       (emit (notice_first_words n) w))"
    by (rule dump_flash_exact)
  have p2: "unat n < 2 ^ 30 \<longrightarrow>
      unat n mod 2 ^ 30 = unat n \<and> (\<forall>k<unat n. unat (word_address k) = 4 * k)"
    by (simp add: unat_word_address)
  have p3: "2 ^ 30 \<le> unat n \<longrightarrow> unat n mod 2 ^ 30 < unat n"
  proof
    assume "2 ^ 30 \<le> unat n"
    moreover have "unat n mod 2 ^ 30 < 2 ^ 30" by simp
    ultimately show "unat n mod 2 ^ 30 < unat n" by linarith
  qed
  have p4: "read_words_in_order target (map word_address [0..<m]) u = (e, u') \<longrightarrow>
      (e = success \<and>
         (\<exists>vs. length vs = m \<and> events_since u u' = dump_events (zip [0..<m] vs))) \<or>
      (e \<noteq> success \<and>
         (\<exists>j vs uj v. j < m \<and> length vs = j \<and>
            events_since u uj = dump_events (zip [0..<j] vs) \<and>
            call target (read_word (word_address j)) uj = (e, v, u') \<and>
            events_since u u' = dump_events (zip [0..<j] vs) @ [read_word (word_address j)]))"
  proof
    assume r: "read_words_in_order target (map word_address [0..<m]) u = (e, u')"
    from read_words_in_order_run [OF r] show "(e = success \<and>
         (\<exists>vs. length vs = m \<and> events_since u u' = dump_events (zip [0..<m] vs))) \<or>
      (e \<noteq> success \<and>
         (\<exists>j vs uj v. j < m \<and> length vs = j \<and>
            events_since u uj = dump_events (zip [0..<j] vs) \<and>
            call target (read_word (word_address j)) uj = (e, v, u') \<and>
            events_since u u' = dump_events (zip [0..<j] vs) @ [read_word (word_address j)]))"
    proof (elim disjE conjE exE)
      fix vs assume "e = success" "length vs = m - 0"
        "trace u' = trace u @ dump_events (zip [0..<m] vs)"
      then show ?thesis
        by (intro disjI1 conjI exI [of _ vs]) (simp_all add: events_since_def)
    next
      fix j vs uj v
      assume a: "e \<noteq> success" "0 \<le> j" "j < m" "length vs = j - 0"
        "trace uj = trace u @ dump_events (zip [0..<j] vs)"
        "call target (read_word (word_address j)) uj = (e, v, u')"
      from call_trace [OF a(6)] a(5) have "trace u' =
          trace u @ dump_events (zip [0..<j] vs) @ [read_word (word_address j)]"
        by simp
      with a show ?thesis
        by (intro disjI2 conjI exI [of _ j] exI [of _ vs] exI [of _ uj] exI [of _ v])
          (simp_all add: events_since_def)
    qed
  qed
  have p5: "(\<forall>c t. fst (target c t) = success) \<and> unat n < 2 ^ 30 \<longrightarrow>
      (\<exists>w' vs. dump_flash target n w = Some (success, w') \<and> length vs = unat n \<and>
         events_since w w' = notice_first_words n # dump_events (zip [0..<unat n] vs))"
  proof
    assume a: "(\<forall>c t. fst (target c t) = success) \<and> unat n < 2 ^ 30"
    obtain e w' where r: "read_words_in_order target (map word_address [0..<unat n])
        (emit (notice_first_words n) w) = (e, w')"
      by (cases "read_words_in_order target (map word_address [0..<unat n])
        (emit (notice_first_words n) w)") auto
    from a have ok: "\<forall>c t. fst (target c t) = success" by blast
    from read_words_in_order_healthy [OF ok r] obtain vs where
      v: "e = success" "length vs = unat n"
      "trace w' = trace (emit (notice_first_words n) w) @ dump_events (zip [0..<unat n] vs)"
      by blast
    from a r v(1) have "dump_flash target n w = Some (success, w')"
      by (simp add: dump_flash_exact)
    with v show "\<exists>w' vs. dump_flash target n w = Some (success, w') \<and> length vs = unat n \<and>
         events_since w w' = notice_first_words n # dump_events (zip [0..<unat n] vs)"
      by (intro exI [of _ w'] exI [of _ vs]) (simp add: emit_trace events_since_def)
  qed
  have p6: "run_experiment swd count w0 =
     (case calls_in_order swd
        [swd_initialize, swd_reset_target 100000, dap_reset_state, target_initialize,
         target_halt, write_word 0x40048000 2] w0 of
        (e6, w6) \<Rightarrow>
          if e6 \<noteq> success then Some (e6, w6) else dump_flash swd (word_of_int count) w6)"
    by (rule run_experiment_exact)
  have p7: "calls_in_order swd cs w0 = (e0, w0') \<longrightarrow>
      (e0 = success \<and> events_since w0 w0' = cs) \<or>
      (e0 \<noteq> success \<and>
         (\<exists>k v u0. k < length cs \<and> events_since w0 u0 = take k cs \<and>
            call swd (cs ! k) u0 = (e0, v, w0') \<and>
            events_since w0 w0' = take (Suc k) cs))"
  proof
    assume r: "calls_in_order swd cs w0 = (e0, w0')"
    from calls_in_order_run [OF r] show "(e0 = success \<and> events_since w0 w0' = cs) \<or>
      (e0 \<noteq> success \<and>
         (\<exists>k v u0. k < length cs \<and> events_since w0 u0 = take k cs \<and>
            call swd (cs ! k) u0 = (e0, v, w0') \<and>
            events_since w0 w0' = take (Suc k) cs))"
    proof (elim disjE conjE exE)
      assume "e0 = success" "trace w0' = trace w0 @ cs"
      then show ?thesis by (simp add: events_since_def)
    next
      fix k v u0
      assume a: "e0 \<noteq> success" "k < length cs" "trace u0 = trace w0 @ take k cs"
        "call swd (cs ! k) u0 = (e0, v, w0')"
      from call_trace [OF a(4)] a(2,3) have "trace w0' = trace w0 @ take (Suc k) cs"
        by (simp add: take_Suc_conv_app_nth)
      with a show ?thesis
        by (intro disjI2 conjI exI [of _ k] exI [of _ v] exI [of _ u0])
          (simp_all add: events_since_def)
    qed
  qed
  have p8: "(\<forall>c t. fst (swd c t) = success) \<and> unat (word_of_int count :: word_t) < 2 ^ 30 \<longrightarrow>
      (\<exists>w' vs. run_experiment swd count w0 = Some (success, w') \<and>
         length vs = unat (word_of_int count :: word_t) \<and>
         events_since w0 w' =
           [swd_initialize, swd_reset_target 100000, dap_reset_state, target_initialize,
            target_halt, write_word 0x40048000 2] @
           notice_first_words (word_of_int count) #
           dump_events (zip [0..<unat (word_of_int count :: word_t)] vs))"
  proof
    assume a: "(\<forall>c t. fst (swd c t) = success) \<and> unat (word_of_int count :: word_t) < 2 ^ 30"
    then have ok: "\<forall>c t. fst (swd c t) = success"
      and n: "unat (word_of_int count :: word_t) < 2 ^ 30"
      by blast+
    obtain e6 w6 where c: "calls_in_order swd
        [swd_initialize, swd_reset_target 100000, dap_reset_state, target_initialize,
         target_halt, write_word 0x40048000 2] w0 = (e6, w6)"
      by (cases "calls_in_order swd
        [swd_initialize, swd_reset_target 100000, dap_reset_state, target_initialize,
         target_halt, write_word 0x40048000 2] w0") auto
    from calls_in_order_healthy [OF ok c] have e6: "e6 = success"
      and t6: "trace w6 = trace w0 @
        [swd_initialize, swd_reset_target 100000, dap_reset_state, target_initialize,
         target_halt, write_word 0x40048000 2]"
      by blast+
    from c e6 have r: "run_experiment swd count w0 = dump_flash swd (word_of_int count) w6"
      by (simp only: run_experiment_exact) simp
    from dump_flash_healthy [OF ok n, of w6] obtain w' vs where
      d: "dump_flash swd (word_of_int count) w6 = Some (success, w')"
      "length vs = unat (word_of_int count :: word_t)"
      "trace w' = trace w6 @ notice_first_words (word_of_int count) #
         dump_events (zip [0..<unat (word_of_int count :: word_t)] vs)"
      by blast
    from r d t6 show "\<exists>w' vs. run_experiment swd count w0 = Some (success, w') \<and>
         length vs = unat (word_of_int count :: word_t) \<and>
         events_since w0 w' =
           [swd_initialize, swd_reset_target 100000, dap_reset_state, target_initialize,
            target_halt, write_word 0x40048000 2] @
           notice_first_words (word_of_int count) #
           dump_events (zip [0..<unat (word_of_int count :: word_t)] vs)"
      by (intro exI [of _ w'] exI [of _ vs]) (simp add: events_since_def)
  qed
  show ?thesis
    by (intro conjI) (rule p1 p2 p3 p4 p5 p6 p7 p8)+
qed

theorem dump_flash_reads_witness:
  "dump_flash (mocked_target 3) 2 (mock_world []) =
     Some (success,
       mock_world [notice_first_words 2, read_word 0, notice_word 0 0, read_word 4,
         notice_word 4 0]) \<and>
   unat (2 :: word_t) mod 2 ^ 30 = unat (2 :: word_t) \<and>
   unat (0x40000000 :: word_t) mod 2 ^ 30 < unat (0x40000000 :: word_t) \<and>
   (\<exists>vs. length vs = 2 \<and>
      events_since (mock_world [])
        (mock_world [read_word 0, notice_word 0 0, read_word 4, notice_word 4 0]) =
      dump_events (zip [0..<2] vs)) \<and>
   (\<exists>w' vs. dump_flash (mocked_target 3) 2 (mock_world []) = Some (success, w') \<and>
      length vs = unat (2 :: word_t) \<and>
      events_since (mock_world []) w' =
        notice_first_words 2 # dump_events (zip [0..<unat (2 :: word_t)] vs)) \<and>
   run_experiment (mocked_target 3) 2 (mock_world []) =
     Some (success,
       mock_world [swd_initialize, swd_reset_target 100000, dap_reset_state,
         target_initialize, target_halt, write_word 0x40048000 2, notice_first_words 2,
         read_word 0, notice_word 0 0, read_word 4, notice_word 4 0]) \<and>
   events_since (mock_world [])
     (mock_world [swd_initialize, swd_reset_target 100000, dap_reset_state,
        target_initialize, target_halt, write_word 0x40048000 2]) =
     [swd_initialize, swd_reset_target 100000, dap_reset_state, target_initialize,
      target_halt, write_word 0x40048000 2] \<and>
   (\<exists>w' vs. run_experiment (mocked_target 3) 2 (mock_world []) = Some (success, w') \<and>
      length vs = unat (word_of_int 2 :: word_t) \<and>
      events_since (mock_world []) w' =
        [swd_initialize, swd_reset_target 100000, dap_reset_state, target_initialize,
         target_halt, write_word 0x40048000 2] @
        notice_first_words (word_of_int 2) #
        dump_events (zip [0..<unat (word_of_int 2 :: word_t)] vs))"
proof -
  note T = dump_flash_reads
  have h2: "unat (2 :: word_t) < 2 ^ 30" by simp
  have h3: "2 ^ 30 \<le> unat (0x40000000 :: word_t)" by simp
  have c1: "dump_flash (mocked_target 3) 2 (mock_world []) =
     Some (success,
       mock_world [notice_first_words 2, read_word 0, notice_word 0 0, read_word 4,
         notice_word 4 0])"
    using T [THEN conjunct1, of "mocked_target 3" 2 "mock_world []"]
      mocked_read_words_2 [of 3 "[notice_first_words 2]"]
    by (simp add: mocked_emit)
  from T [THEN conjunct2, THEN conjunct1, THEN mp, OF h2]
  have c2: "unat (2 :: word_t) mod 2 ^ 30 = unat (2 :: word_t)" by blast
  from T [THEN conjunct2, THEN conjunct2, THEN conjunct1, THEN mp, OF h3]
  have c3: "unat (0x40000000 :: word_t) mod 2 ^ 30 < unat (0x40000000 :: word_t)" .
  from T [THEN conjunct2, THEN conjunct2, THEN conjunct2, THEN conjunct1, THEN mp,
      OF mocked_read_words_2 [of 3 "[]"]]
  have c4: "\<exists>vs. length vs = 2 \<and>
      events_since (mock_world [])
        (mock_world [read_word 0, notice_word 0 0, read_word 4, notice_word 4 0]) =
      dump_events (zip [0..<2] vs)"
    by simp
  from T [THEN conjunct2, THEN conjunct2, THEN conjunct2, THEN conjunct2, THEN conjunct1,
      THEN mp, OF conjI [OF mocked_target_ok h2]]
  have c5: "\<exists>w' vs. dump_flash (mocked_target 3) 2 (mock_world []) = Some (success, w') \<and>
      length vs = unat (2 :: word_t) \<and>
      events_since (mock_world []) w' =
        notice_first_words 2 # dump_events (zip [0..<unat (2 :: word_t)] vs)" .
  have c6: "run_experiment (mocked_target 3) 2 (mock_world []) =
     Some (success,
       mock_world [swd_initialize, swd_reset_target 100000, dap_reset_state,
         target_initialize, target_halt, write_word 0x40048000 2, notice_first_words 2,
         read_word 0, notice_word 0 0, read_word 4, notice_word 4 0])"
    using T [THEN conjunct2, THEN conjunct2, THEN conjunct2, THEN conjunct2, THEN conjunct2,
        THEN conjunct1, of "mocked_target 3" 2 "mock_world []"]
      mocked_dump_2 [of 3 "[swd_initialize, swd_reset_target 100000, dap_reset_state,
         target_initialize, target_halt, write_word 0x40048000 2]"]
      mocked_calls_in_order [of 3 "[swd_initialize, swd_reset_target 100000,
         dap_reset_state, target_initialize, target_halt, write_word 0x40048000 2]" "[]"]
    by (simp del: calls_in_order.simps)
  from T [THEN conjunct2, THEN conjunct2, THEN conjunct2, THEN conjunct2, THEN conjunct2,
      THEN conjunct2, THEN conjunct1, THEN mp,
      OF mocked_calls_in_order [of 3 "[swd_initialize, swd_reset_target 100000,
         dap_reset_state, target_initialize, target_halt, write_word 0x40048000 2]" "[]"]]
  have c7: "events_since (mock_world [])
     (mock_world [swd_initialize, swd_reset_target 100000, dap_reset_state,
        target_initialize, target_halt, write_word 0x40048000 2]) =
     [swd_initialize, swd_reset_target 100000, dap_reset_state, target_initialize,
      target_halt, write_word 0x40048000 2]"
    by simp
  have h8: "unat (word_of_int 2 :: word_t) < 2 ^ 30" by simp
  from T [THEN conjunct2, THEN conjunct2, THEN conjunct2, THEN conjunct2, THEN conjunct2,
      THEN conjunct2, THEN conjunct2, THEN mp, OF conjI [OF mocked_target_ok h8]]
  have c8: "\<exists>w' vs. run_experiment (mocked_target 3) 2 (mock_world []) = Some (success, w') \<and>
      length vs = unat (word_of_int 2 :: word_t) \<and>
      events_since (mock_world []) w' =
        [swd_initialize, swd_reset_target 100000, dap_reset_state, target_initialize,
         target_halt, write_word 0x40048000 2] @
        notice_first_words (word_of_int 2) #
        dump_events (zip [0..<unat (word_of_int 2 :: word_t)] vs)" .
  from c1 c2 c3 c4 c5 c6 c7 c8 show ?thesis by blast
qed

theorem dump_flash_wraps_counterexample:
  "dump_flash (mocked_target 3) 0x40000000 (mock_world []) =
     Some (success, mock_world [notice_first_words 0x40000000]) \<and>
   filter memory_access [notice_first_words 0x40000000] = [] \<and>
   unat (0x40000000 :: word_t) = 1073741824"
  by (simp add: dump_flash_def mocked_emit, subst dump_flash_loop.simps) simp

section \<open>The two dump loops agree\<close>

lemma memory_access_dump_events:
  "filter memory_access (dump_events kvs) = map (\<lambda>kv. read_word (word_address (fst kv))) kvs"
  by (induction kvs) (auto simp: dump_events_def)

lemma memory_access_dump_zip:
  assumes "length vs = j"
  shows "filter memory_access (dump_events (zip [0..<j] vs)) =
     map (\<lambda>k. read_word (word_address k)) [0..<j]"
proof -
  have "map (\<lambda>kv. read_word (word_address (fst kv))) (zip [0..<j] vs) =
      map (\<lambda>k. read_word (word_address k)) (map fst (zip [0..<j] vs))"
    by (simp add: comp_def)
  with assms show ?thesis
    by (simp add: memory_access_dump_events)
qed

lemma busy_dump_2:
  "dump_flash busy_target 2 (mock_world evs) =
     Some (try_again, mock_world (evs @ [notice_first_words 2, read_word 0]))"
proof -
  have u: "[0..<2] = [0, Suc 0]" by (simp add: upt_conv_Cons)
  show ?thesis
    by (simp add: dump_flash_exact u word_address_def call_def emit_def busy_target_def
        mock_world_def)
qed

text \<open>
  C10 (amended). The two dump loops return the same result after the same events, for
  every word count \<open>n\<close>, link and world: both read the words number 0, ...,
  \<open>n mod 2 ^ 30 - 1\<close> in order and stop at the first read that fails. When the loop with
  remote pointers returns, the plain loop returns the same, and either all these words
  have been read and reported, or the last event is the failed read of a word that comes
  after the reported ones. Below \<open>2 ^ 30\<close> and on a link whose calls all succeed, both succeed
  and their memory accesses are the reads at 0, 4, ..., 4 * (n - 1).
\<close>

theorem dump_flash_variants_agree:
  "dump_flash_rptr target n w = dump_flash target n w \<and>
   dump_flash_rptr target n w =
     Some (read_words_in_order target (map word_address [0..<unat n mod 2 ^ 30])
       (emit (notice_first_words n) w)) \<and>
   dump_flash target n w =
     Some (read_words_in_order target (map word_address [0..<unat n mod 2 ^ 30])
       (emit (notice_first_words n) w)) \<and>
   (unat n < 2 ^ 30 \<longrightarrow>
      unat n mod 2 ^ 30 = unat n \<and> (\<forall>k<unat n. unat (word_address k) = 4 * k)) \<and>
   (dump_flash_rptr target n w = Some (e, w') \<longrightarrow>
      dump_flash target n w = Some (e, w') \<and>
      ((e = success \<and>
          (\<exists>vs. length vs = unat n mod 2 ^ 30 \<and>
             trace w' = trace w @ notice_first_words n #
               dump_events (zip [0..<unat n mod 2 ^ 30] vs))) \<or>
       (e \<noteq> success \<and>
          (\<exists>j vs uj v. j < unat n mod 2 ^ 30 \<and> length vs = j \<and>
             trace uj = trace w @ notice_first_words n # dump_events (zip [0..<j] vs) \<and>
             call target (read_word (word_address j)) uj = (e, v, w'))))) \<and>
   ((\<forall>c t. fst (target c t) = success) \<and> unat n < 2 ^ 30 \<longrightarrow>
      (\<exists>u vs. dump_flash_rptr target n w = Some (success, u) \<and>
         dump_flash target n w = Some (success, u) \<and> length vs = unat n \<and>
         events_since w u = notice_first_words n # dump_events (zip [0..<unat n] vs) \<and>
         filter memory_access (events_since w u) =
           map (\<lambda>k. read_word (word_address k)) [0..<unat n]))"
proof -
  have p1: "dump_flash_rptr target n w = dump_flash target n w"
    by (simp add: dump_flash_exact dump_flash_rptr_exact)
  have p2: "dump_flash_rptr target n w =
     Some (read_words_in_order target (map word_address [0..<unat n mod 2 ^ 30])
       (emit (notice_first_words n) w))"
    by (rule dump_flash_rptr_exact)
  have p3: "dump_flash target n w =
     Some (read_words_in_order target (map word_address [0..<unat n mod 2 ^ 30])
       (emit (notice_first_words n) w))"
    by (rule dump_flash_exact)
  have p4: "unat n < 2 ^ 30 \<longrightarrow>
      unat n mod 2 ^ 30 = unat n \<and> (\<forall>k<unat n. unat (word_address k) = 4 * k)"
    by (simp add: unat_word_address)
  have p5: "dump_flash_rptr target n w = Some (e, w') \<longrightarrow>
      dump_flash target n w = Some (e, w') \<and>
      ((e = success \<and>
          (\<exists>vs. length vs = unat n mod 2 ^ 30 \<and>
             trace w' = trace w @ notice_first_words n #
               dump_events (zip [0..<unat n mod 2 ^ 30] vs))) \<or>
       (e \<noteq> success \<and>
          (\<exists>j vs uj v. j < unat n mod 2 ^ 30 \<and> length vs = j \<and>
             trace uj = trace w @ notice_first_words n # dump_events (zip [0..<j] vs) \<and>
             call target (read_word (word_address j)) uj = (e, v, w'))))"
  proof
    assume "dump_flash_rptr target n w = Some (e, w')"
    with p1 have d: "dump_flash target n w = Some (e, w')" by simp
    from d dump_flash_run [OF d] show "dump_flash target n w = Some (e, w') \<and>
      ((e = success \<and>
          (\<exists>vs. length vs = unat n mod 2 ^ 30 \<and>
             trace w' = trace w @ notice_first_words n #
               dump_events (zip [0..<unat n mod 2 ^ 30] vs))) \<or>
       (e \<noteq> success \<and>
          (\<exists>j vs uj v. j < unat n mod 2 ^ 30 \<and> length vs = j \<and>
             trace uj = trace w @ notice_first_words n # dump_events (zip [0..<j] vs) \<and>
             call target (read_word (word_address j)) uj = (e, v, w'))))"
      by (rule conjI)
  qed
  have p6: "(\<forall>c t. fst (target c t) = success) \<and> unat n < 2 ^ 30 \<longrightarrow>
      (\<exists>u vs. dump_flash_rptr target n w = Some (success, u) \<and>
         dump_flash target n w = Some (success, u) \<and> length vs = unat n \<and>
         events_since w u = notice_first_words n # dump_events (zip [0..<unat n] vs) \<and>
         filter memory_access (events_since w u) =
           map (\<lambda>k. read_word (word_address k)) [0..<unat n])"
  proof
    assume a: "(\<forall>c t. fst (target c t) = success) \<and> unat n < 2 ^ 30"
    then have ok: "\<forall>c t. fst (target c t) = success" and n: "unat n < 2 ^ 30"
      by blast+
    from dump_flash_healthy [OF ok n, of w] obtain u vs where
      d: "dump_flash target n w = Some (success, u)" "length vs = unat n"
      "trace u = trace w @ notice_first_words n # dump_events (zip [0..<unat n] vs)"
      by blast
    from d(3) have ev: "events_since w u =
        notice_first_words n # dump_events (zip [0..<unat n] vs)"
      by (simp add: events_since_def)
    with d(2) have f: "filter memory_access (events_since w u) =
        map (\<lambda>k. read_word (word_address k)) [0..<unat n]"
      by (simp add: memory_access_dump_zip)
    from d(1,2) p1 ev f show "\<exists>u vs. dump_flash_rptr target n w = Some (success, u) \<and>
         dump_flash target n w = Some (success, u) \<and> length vs = unat n \<and>
         events_since w u = notice_first_words n # dump_events (zip [0..<unat n] vs) \<and>
         filter memory_access (events_since w u) =
           map (\<lambda>k. read_word (word_address k)) [0..<unat n]"
      by (intro exI [of _ u] exI [of _ vs]) simp
  qed
  show ?thesis
    by (intro conjI) (rule p1 p2 p3 p4 p5 p6)+
qed

theorem dump_flash_variants_agree_witness:
  "dump_flash_rptr (mocked_target 3) 2 (mock_world []) =
     dump_flash (mocked_target 3) 2 (mock_world []) \<and>
   dump_flash_rptr (mocked_target 3) 2 (mock_world []) =
     Some (success,
       mock_world [notice_first_words 2, read_word 0, notice_word 0 0, read_word 4,
         notice_word 4 0]) \<and>
   unat (2 :: word_t) mod 2 ^ 30 = unat (2 :: word_t) \<and>
   dump_flash (mocked_target 3) 2 (mock_world []) =
     Some (success,
       mock_world [notice_first_words 2, read_word 0, notice_word 0 0, read_word 4,
         notice_word 4 0]) \<and>
   dump_flash busy_target 2 (mock_world []) =
     Some (try_again, mock_world [notice_first_words 2, read_word 0]) \<and>
   (\<exists>u vs. dump_flash_rptr (mocked_target 3) 2 (mock_world []) = Some (success, u) \<and>
      dump_flash (mocked_target 3) 2 (mock_world []) = Some (success, u) \<and>
      length vs = unat (2 :: word_t) \<and>
      events_since (mock_world []) u =
        notice_first_words 2 # dump_events (zip [0..<unat (2 :: word_t)] vs) \<and>
      filter memory_access (events_since (mock_world []) u) =
        map (\<lambda>k. read_word (word_address k)) [0..<unat (2 :: word_t)])"
proof -
  note T = dump_flash_variants_agree
  have h2: "unat (2 :: word_t) < 2 ^ 30" by simp
  have c1: "dump_flash_rptr (mocked_target 3) 2 (mock_world []) =
     dump_flash (mocked_target 3) 2 (mock_world [])"
    by (rule T [THEN conjunct1])
  have c2: "dump_flash_rptr (mocked_target 3) 2 (mock_world []) =
     Some (success,
       mock_world [notice_first_words 2, read_word 0, notice_word 0 0, read_word 4,
         notice_word 4 0])"
    using T [THEN conjunct2, THEN conjunct1, of "mocked_target 3" 2 "mock_world []"]
      mocked_read_words_2 [of 3 "[notice_first_words 2]"]
    by (simp add: mocked_emit)
  from T [THEN conjunct2, THEN conjunct2, THEN conjunct2, THEN conjunct1, THEN mp, OF h2]
  have c3: "unat (2 :: word_t) mod 2 ^ 30 = unat (2 :: word_t)" by blast
  from T [THEN conjunct2, THEN conjunct2, THEN conjunct2, THEN conjunct2, THEN conjunct1,
      THEN mp, OF c2]
  have c4: "dump_flash (mocked_target 3) 2 (mock_world []) =
     Some (success,
       mock_world [notice_first_words 2, read_word 0, notice_word 0 0, read_word 4,
         notice_word 4 0])"
    by blast
  have b: "dump_flash_rptr busy_target 2 (mock_world []) =
     Some (try_again, mock_world [notice_first_words 2, read_word 0])"
    using T [THEN conjunct1, of busy_target 2 "mock_world []"] busy_dump_2 [of "[]"]
    by simp
  from T [THEN conjunct2, THEN conjunct2, THEN conjunct2, THEN conjunct2, THEN conjunct1,
      THEN mp, OF b]
  have c5: "dump_flash busy_target 2 (mock_world []) =
     Some (try_again, mock_world [notice_first_words 2, read_word 0])"
    by blast
  from T [THEN conjunct2, THEN conjunct2, THEN conjunct2, THEN conjunct2, THEN conjunct2,
      THEN mp, OF conjI [OF mocked_target_ok h2]]
  have c6: "\<exists>u vs. dump_flash_rptr (mocked_target 3) 2 (mock_world []) = Some (success, u) \<and>
      dump_flash (mocked_target 3) 2 (mock_world []) = Some (success, u) \<and>
      length vs = unat (2 :: word_t) \<and>
      events_since (mock_world []) u =
        notice_first_words 2 # dump_events (zip [0..<unat (2 :: word_t)] vs) \<and>
      filter memory_access (events_since (mock_world []) u) =
        map (\<lambda>k. read_word (word_address k)) [0..<unat (2 :: word_t)]" .
  from c1 c2 c3 c4 c5 c6 show ?thesis by blast
qed

theorem dump_flash_sequence_counterexample:
  "dump_flash (mocked_target 3) 0x40000001 (mock_world []) =
     Some (success,
       mock_world [notice_first_words 0x40000001, read_word 0, notice_word 0 0]) \<and>
   filter memory_access [notice_first_words 0x40000001, read_word 0, notice_word 0 0] =
     [read_word 0] \<and>
   unat (0x40000001 :: word_t) = 1073741825 \<and>
   dump_flash busy_target 2 (mock_world []) =
     Some (try_again, mock_world [notice_first_words 2, read_word 0])"
proof -
  have v: "fst (snd (mocked_target 3 (read_word 0) ())) = 0"
    by (simp add: mocked_target_def DFSR_def DHCSR_def)
  have u: "unat (0x40000001 * 4 :: word_t) div 4 = 1" by simp
  have a: "dump_flash (mocked_target 3) 0x40000001 (mock_world []) =
     Some (success,
       mock_world [notice_first_words 0x40000001, read_word 0, notice_word 0 0])"
    by (simp add: dump_flash_total u word_address_def mocked_call mocked_emit v)
  from a busy_dump_2 [of "[]"] show ?thesis by simp
qed

section \<open>Exit codes\<close>

lemma mocked_host_main_unsupported:
  "host_main (mocked_target 4) (mock_world evs) =
     Some (failure,
       mock_world (evs @ [swd_initialize, swd_enter_reset, usleep 10000, dap_reset_state,
         target_initialize, target_reset_halt_state, swd_leave_reset, read_word DHCSR,
         read_word DFSR, read_register PC, read_word 0x100, read_register R0,
         read_register R1, warning_unsupported_operation 4]))"
proof -
  have it: "host_main_iteration (mocked_target 4) (mock_world evs') =
      (Some failure,
       mock_world (evs' @ [read_word DHCSR, read_word DFSR, read_register PC, read_word 0x100,
         read_register R0, read_register R1, warning_unsupported_operation 4]))" for evs'
    by (simp add: host_main_iteration_def mocked_CheckRetry mocked_values mocked_unsupported
        DHCSR_S_HALT_def)
  have loop: "host_main_loop (mocked_target 4) (mock_world evs') =
      Some (failure,
       mock_world (evs' @ [read_word DHCSR, read_word DFSR, read_register PC, read_word 0x100,
         read_register R0, read_register R1, warning_unsupported_operation 4]))" for evs'
    by (subst host_main_loop.simps) (simp add: it)
  show ?thesis
    by (simp add: host_main_def mocked_call mocked_emit loop)
qed

lemma busy_run_experiment:
  "run_experiment busy_target count (mock_world evs) =
     Some (try_again, mock_world (evs @ [swd_initialize]))"
  by (simp add: run_experiment_def call_def busy_target_def mock_world_def)

text \<open>
  C9. In both tools: when the parsing of the command line returns an error, \<open>main\<close>
  prints the error stack and returns 1, without running \<open>error_main\<close>; when the parsing
  succeeds and \<open>error_main\<close>, run after the log level is set, returns an error, \<open>main\<close> prints
  the error stack and returns 1; when both succeed \<open>main\<close> returns 0; and \<open>main\<close> does not
  return only when \<open>error_main\<close> does not. So \<open>main\<close> returns 0 exactly when both succeed, and
  a return with any other code is a return of 1 after an error of one of the two, the
  printing of the error stack being the last event.
\<close>

theorem main_exit_code:
  "(parse w = (e1, w1) \<and> e1 \<noteq> success \<longrightarrow>
      main_swdhost parse error_main w = Some (1, emit error_stack_print w1) \<and>
      main_swddump parse error_main w = Some (1, emit error_stack_print w1)) \<and>
   (parse w = (success, w1) \<and> error_main (emit set_level w1) = Some (e2, w2) \<and>
    e2 \<noteq> success \<longrightarrow>
      main_swdhost parse error_main w = Some (1, emit error_stack_print w2) \<and>
      main_swddump parse error_main w = Some (1, emit error_stack_print w2)) \<and>
   (parse w = (success, w1) \<and> error_main (emit set_level w1) = Some (success, w2) \<longrightarrow>
      main_swdhost parse error_main w = Some (0, w2) \<and>
      main_swddump parse error_main w = Some (0, w2)) \<and>
   (parse w = (success, w1) \<and> error_main (emit set_level w1) = None \<longrightarrow>
      main_swdhost parse error_main w = None \<and> main_swddump parse error_main w = None) \<and>
   (main_swdhost parse error_main w = Some (0, w') \<longleftrightarrow>
      (\<exists>w1. parse w = (success, w1) \<and> error_main (emit set_level w1) = Some (success, w'))) \<and>
   (main_swdhost parse error_main w = Some (code, w') \<and> code \<noteq> 0 \<longrightarrow>
      code = 1 \<and>
      (\<exists>e w2. e \<noteq> success \<and> w' = emit error_stack_print w2 \<and>
         (parse w = (e, w2) \<or>
          (\<exists>w1. parse w = (success, w1) \<and> error_main (emit set_level w1) = Some (e, w2))))) \<and>
   (main_swddump parse error_main w = Some (0, w') \<longleftrightarrow>
      (\<exists>w1. parse w = (success, w1) \<and> error_main (emit set_level w1) = Some (success, w'))) \<and>
   (main_swddump parse error_main w = Some (code, w') \<and> code \<noteq> 0 \<longrightarrow>
      code = 1 \<and>
      (\<exists>e w2. e \<noteq> success \<and> w' = emit error_stack_print w2 \<and>
         (parse w = (e, w2) \<or>
          (\<exists>w1. parse w = (success, w1) \<and> error_main (emit set_level w1) = Some (e, w2)))))"
proof -
  have p1: "parse w = (e1, w1) \<and> e1 \<noteq> success \<longrightarrow>
      main_swdhost parse error_main w = Some (1, emit error_stack_print w1) \<and>
      main_swddump parse error_main w = Some (1, emit error_stack_print w1)"
    by (simp add: main_swdhost_def main_swddump_def)
  have p2: "parse w = (success, w1) \<and> error_main (emit set_level w1) = Some (e2, w2) \<and>
    e2 \<noteq> success \<longrightarrow>
      main_swdhost parse error_main w = Some (1, emit error_stack_print w2) \<and>
      main_swddump parse error_main w = Some (1, emit error_stack_print w2)"
    by (simp add: main_swdhost_def main_swddump_def)
  have p3: "parse w = (success, w1) \<and> error_main (emit set_level w1) = Some (success, w2) \<longrightarrow>
      main_swdhost parse error_main w = Some (0, w2) \<and>
      main_swddump parse error_main w = Some (0, w2)"
    by (simp add: main_swdhost_def main_swddump_def)
  have p4: "parse w = (success, w1) \<and> error_main (emit set_level w1) = None \<longrightarrow>
      main_swdhost parse error_main w = None \<and> main_swddump parse error_main w = None"
    by (simp add: main_swdhost_def main_swddump_def)
  have p58: "(main_swdhost parse error_main w = Some (0, w') \<longleftrightarrow>
      (\<exists>w1. parse w = (success, w1) \<and> error_main (emit set_level w1) = Some (success, w'))) \<and>
   (main_swdhost parse error_main w = Some (code, w') \<and> code \<noteq> 0 \<longrightarrow>
      code = 1 \<and>
      (\<exists>e w2. e \<noteq> success \<and> w' = emit error_stack_print w2 \<and>
         (parse w = (e, w2) \<or>
          (\<exists>w1. parse w = (success, w1) \<and> error_main (emit set_level w1) = Some (e, w2))))) \<and>
   (main_swddump parse error_main w = Some (0, w') \<longleftrightarrow>
      (\<exists>w1. parse w = (success, w1) \<and> error_main (emit set_level w1) = Some (success, w'))) \<and>
   (main_swddump parse error_main w = Some (code, w') \<and> code \<noteq> 0 \<longrightarrow>
      code = 1 \<and>
      (\<exists>e w2. e \<noteq> success \<and> w' = emit error_stack_print w2 \<and>
         (parse w = (e, w2) \<or>
          (\<exists>w1. parse w = (success, w1) \<and> error_main (emit set_level w1) = Some (e, w2)))))"
  proof -
    obtain e1 w1 where p: "parse w = (e1, w1)" by (cases "parse w") auto
    show ?thesis
    proof (cases "e1 = success")
      case False
      with p show ?thesis
        by (auto simp: main_swdhost_def main_swddump_def)
    next
      case True
      show ?thesis
      proof (cases "error_main (emit set_level w1)")
        case None
        with p True show ?thesis
          by (simp add: main_swdhost_def main_swddump_def)
      next
        case (Some r)
        obtain e2 w2 where r: "r = (e2, w2)" by (cases r) auto
        with p True Some show ?thesis
          by (cases "e2 = success") (auto simp: main_swdhost_def main_swddump_def)
      qed
    qed
  qed
  from p1 p2 p3 p4 p58 show ?thesis
    by (intro conjI) blast+
qed

theorem main_exit_code_witness:
  "main_swdhost (\<lambda>w. (failure, w)) (host_main (mocked_target 4)) (mock_world []) =
     Some (1, mock_world [error_stack_print]) \<and>
   main_swddump (\<lambda>w. (failure, w)) (run_experiment (mocked_target 3) 2) (mock_world []) =
     Some (1, mock_world [error_stack_print]) \<and>
   main_swdhost (\<lambda>w. (success, w)) (host_main (mocked_target 4)) (mock_world []) =
     Some (1,
       mock_world [set_level, swd_initialize, swd_enter_reset, usleep 10000, dap_reset_state,
         target_initialize, target_reset_halt_state, swd_leave_reset, read_word DHCSR,
         read_word DFSR, read_register PC, read_word 0x100, read_register R0,
         read_register R1, warning_unsupported_operation 4, error_stack_print]) \<and>
   main_swddump (\<lambda>w. (success, w)) (run_experiment busy_target 2) (mock_world []) =
     Some (1, mock_world [set_level, swd_initialize, error_stack_print]) \<and>
   main_swdhost (\<lambda>w. (success, w)) (\<lambda>w. Some (success, w)) (mock_world []) =
     Some (0, mock_world [set_level]) \<and>
   main_swddump (\<lambda>w. (success, w)) (run_experiment (mocked_target 3) 2) (mock_world []) =
     Some (0,
       mock_world [set_level, swd_initialize, swd_reset_target 100000, dap_reset_state,
         target_initialize, target_halt, write_word 0x40048000 2, notice_first_words 2,
         read_word 0, notice_word 0 0, read_word 4, notice_word 4 0]) \<and>
   main_swdhost (\<lambda>w. (success, w)) (\<lambda>w. None) (mock_world []) = None \<and>
   main_swddump (\<lambda>w. (success, w)) (\<lambda>w. None) (mock_world []) = None \<and>
   (\<exists>w1. (success, mock_world []) = (success, w1) \<and>
      run_experiment (mocked_target 3) 2 (emit set_level w1) =
        Some (success,
          mock_world [set_level, swd_initialize, swd_reset_target 100000, dap_reset_state,
            target_initialize, target_halt, write_word 0x40048000 2, notice_first_words 2,
            read_word 0, notice_word 0 0, read_word 4, notice_word 4 0])) \<and>
   (\<exists>e w2. e \<noteq> success \<and> mock_world [set_level, swd_initialize, error_stack_print] =
        emit error_stack_print w2 \<and>
      ((success, mock_world []) = (e, w2) \<or>
       (\<exists>w1. (success, mock_world []) = (success, w1) \<and>
          run_experiment busy_target 2 (emit set_level w1) = Some (e, w2)))) \<and>
   (\<exists>w1. (success, mock_world []) = (success, w1) \<and>
      Some (success, emit set_level w1) = Some (success, mock_world [set_level])) \<and>
   (\<exists>e w2. e \<noteq> success \<and> mock_world [error_stack_print] = emit error_stack_print w2 \<and>
      ((failure, mock_world []) = (e, w2) \<or>
       (\<exists>w1. (failure, mock_world []) = (success, w1) \<and>
          host_main (mocked_target 4) (emit set_level w1) = Some (e, w2))))"
proof -
  note T = main_exit_code
  have f: "failure \<noteq> success" "try_again \<noteq> success" by simp_all
  have a1: "(\<lambda>w. (failure, w)) (mock_world []) = (failure, mock_world []) \<and>
      failure \<noteq> success"
    by simp
  from T [where parse = "\<lambda>w. (failure, w)" and error_main = "host_main (mocked_target 4)",
      THEN conjunct1, THEN mp, OF a1]
  have c1: "main_swdhost (\<lambda>w. (failure, w)) (host_main (mocked_target 4)) (mock_world []) =
     Some (1, mock_world [error_stack_print])"
    by (simp add: mocked_emit)
  from T [where parse = "\<lambda>w. (failure, w)" and error_main = "run_experiment (mocked_target 3) 2",
      THEN conjunct1, THEN mp, OF a1]
  have c2: "main_swddump (\<lambda>w. (failure, w)) (run_experiment (mocked_target 3) 2)
      (mock_world []) = Some (1, mock_world [error_stack_print])"
    by (simp add: mocked_emit)
  have a3: "(\<lambda>w. (success, w)) (mock_world []) = (success, mock_world []) \<and>
      host_main (mocked_target 4) (emit set_level (mock_world [])) =
        Some (failure,
          mock_world [set_level, swd_initialize, swd_enter_reset, usleep 10000,
            dap_reset_state, target_initialize, target_reset_halt_state, swd_leave_reset,
            read_word DHCSR, read_word DFSR, read_register PC, read_word 0x100,
            read_register R0, read_register R1, warning_unsupported_operation 4]) \<and>
      failure \<noteq> success"
    by (simp add: mocked_emit mocked_host_main_unsupported)
  from T [where parse = "\<lambda>w. (success, w)" and error_main = "host_main (mocked_target 4)",
      THEN conjunct2, THEN conjunct1, THEN mp, OF a3]
  have c3: "main_swdhost (\<lambda>w. (success, w)) (host_main (mocked_target 4)) (mock_world []) =
     Some (1,
       mock_world [set_level, swd_initialize, swd_enter_reset, usleep 10000, dap_reset_state,
         target_initialize, target_reset_halt_state, swd_leave_reset, read_word DHCSR,
         read_word DFSR, read_register PC, read_word 0x100, read_register R0,
         read_register R1, warning_unsupported_operation 4, error_stack_print])"
    by (simp add: mocked_emit)
  have a4: "(\<lambda>w. (success, w)) (mock_world []) = (success, mock_world []) \<and>
      run_experiment busy_target 2 (emit set_level (mock_world [])) =
        Some (try_again, mock_world [set_level, swd_initialize]) \<and>
      try_again \<noteq> success"
    by (simp add: mocked_emit busy_run_experiment)
  from T [where parse = "\<lambda>w. (success, w)" and error_main = "run_experiment busy_target 2",
      THEN conjunct2, THEN conjunct1, THEN mp, OF a4]
  have c4: "main_swddump (\<lambda>w. (success, w)) (run_experiment busy_target 2) (mock_world []) =
     Some (1, mock_world [set_level, swd_initialize, error_stack_print])"
    by (simp add: mocked_emit)
  have a5: "(\<lambda>w. (success, w)) (mock_world []) = (success, mock_world []) \<and>
      (\<lambda>w. Some (success, w)) (emit set_level (mock_world [])) =
        Some (success, mock_world [set_level])"
    by (simp add: mocked_emit)
  from T [where parse = "\<lambda>w. (success, w)" and error_main = "\<lambda>w. Some (success, w)",
      THEN conjunct2, THEN conjunct2, THEN conjunct1, THEN mp, OF a5]
  have c5: "main_swdhost (\<lambda>w. (success, w)) (\<lambda>w. Some (success, w)) (mock_world []) =
     Some (0, mock_world [set_level])"
    by simp
  have a6: "(\<lambda>w. (success, w)) (mock_world []) = (success, mock_world []) \<and>
      run_experiment (mocked_target 3) 2 (emit set_level (mock_world [])) =
        Some (success,
          mock_world [set_level, swd_initialize, swd_reset_target 100000, dap_reset_state,
            target_initialize, target_halt, write_word 0x40048000 2, notice_first_words 2,
            read_word 0, notice_word 0 0, read_word 4, notice_word 4 0])"
    by (simp add: mocked_emit mocked_run_experiment_2)
  from T [where parse = "\<lambda>w. (success, w)"
        and error_main = "run_experiment (mocked_target 3) 2",
      THEN conjunct2, THEN conjunct2, THEN conjunct1, THEN mp, OF a6]
  have c6: "main_swddump (\<lambda>w. (success, w)) (run_experiment (mocked_target 3) 2)
      (mock_world []) =
     Some (0,
       mock_world [set_level, swd_initialize, swd_reset_target 100000, dap_reset_state,
         target_initialize, target_halt, write_word 0x40048000 2, notice_first_words 2,
         read_word 0, notice_word 0 0, read_word 4, notice_word 4 0])"
    by simp
  have a7: "(\<lambda>w. (success, w)) (mock_world []) = (success, mock_world []) \<and>
      (\<lambda>w. None :: (Error \<times> unit world) option) (emit set_level (mock_world [])) = None"
    by simp
  from T [where parse = "\<lambda>w. (success, w)"
        and error_main = "\<lambda>w. None :: (Error \<times> unit world) option",
      THEN conjunct2, THEN conjunct2, THEN conjunct2, THEN conjunct1, THEN mp, OF a7]
  have c7: "main_swdhost (\<lambda>w. (success, w)) (\<lambda>w. None) (mock_world []) = None \<and>
      main_swddump (\<lambda>w. (success, w)) (\<lambda>w. None) (mock_world []) = None"
    by simp
  from T [where parse = "\<lambda>w. (success, w)"
        and error_main = "run_experiment (mocked_target 3) 2" and w = "mock_world []"
        and w' = "mock_world [set_level, swd_initialize, swd_reset_target 100000,
         dap_reset_state, target_initialize, target_halt, write_word 0x40048000 2,
         notice_first_words 2, read_word 0, notice_word 0 0, read_word 4, notice_word 4 0]",
      THEN conjunct2, THEN conjunct2, THEN conjunct2, THEN conjunct2, THEN conjunct2,
      THEN conjunct2, THEN conjunct1] c6
  have c8: "\<exists>w1. (success, mock_world []) = (success, w1) \<and>
      run_experiment (mocked_target 3) 2 (emit set_level w1) =
        Some (success,
          mock_world [set_level, swd_initialize, swd_reset_target 100000, dap_reset_state,
            target_initialize, target_halt, write_word 0x40048000 2, notice_first_words 2,
            read_word 0, notice_word 0 0, read_word 4, notice_word 4 0])"
    by simp
  have a9: "main_swddump (\<lambda>w. (success, w)) (run_experiment busy_target 2) (mock_world []) =
      Some (1, mock_world [set_level, swd_initialize, error_stack_print]) \<and> (1 :: int) \<noteq> 0"
    using c4 by simp
  from T [where parse = "\<lambda>w. (success, w)" and error_main = "run_experiment busy_target 2",
      THEN conjunct2, THEN conjunct2, THEN conjunct2, THEN conjunct2, THEN conjunct2,
      THEN conjunct2, THEN conjunct2, THEN mp, OF a9]
  have c9: "\<exists>e w2. e \<noteq> success \<and> mock_world [set_level, swd_initialize, error_stack_print] =
        emit error_stack_print w2 \<and>
      ((success, mock_world []) = (e, w2) \<or>
       (\<exists>w1. (success, mock_world []) = (success, w1) \<and>
          run_experiment busy_target 2 (emit set_level w1) = Some (e, w2)))"
    by blast
  from T [where parse = "\<lambda>w. (success, w)" and error_main = "\<lambda>w. Some (success, w)"
        and w = "mock_world []" and w' = "mock_world [set_level]",
      THEN conjunct2, THEN conjunct2, THEN conjunct2, THEN conjunct2, THEN conjunct1] c5
  have c10: "\<exists>w1. (success, mock_world []) = (success, w1) \<and>
      Some (success, emit set_level w1) = Some (success, mock_world [set_level])"
    by simp
  have a11: "main_swdhost (\<lambda>w. (failure, w)) (host_main (mocked_target 4)) (mock_world []) =
      Some (1, mock_world [error_stack_print]) \<and> (1 :: int) \<noteq> 0"
    using c1 by simp
  from T [where parse = "\<lambda>w. (failure, w)" and error_main = "host_main (mocked_target 4)",
      THEN conjunct2, THEN conjunct2, THEN conjunct2, THEN conjunct2, THEN conjunct2,
      THEN conjunct1, THEN mp, OF a11]
  have c11: "\<exists>e w2. e \<noteq> success \<and> mock_world [error_stack_print] =
        emit error_stack_print w2 \<and>
      ((failure, mock_world []) = (e, w2) \<or>
       (\<exists>w1. (failure, mock_world []) = (success, w1) \<and>
          host_main (mocked_target 4) (emit set_level w1) = Some (e, w2)))"
    by blast
  from c1 c2 c3 c4 c5 c6 c7 c8 c9 c10 c11 show ?thesis by blast
qed

end
